theory Spec2Isabelle
  imports Complex_Main
begin

section \<open>Data model\<close>

text \<open>
  One record of the camera's motion array (\<^verbatim>\<open>a[y,x]\<close>): the displacement components
  \<^verbatim>\<open>a['x']\<close>, \<^verbatim>\<open>a['y']\<close> and the activity score \<^verbatim>\<open>a['sad']\<close>. The array's dtype is
  declared by the picamera library: \<^verbatim>\<open>x\<close> and \<^verbatim>\<open>y\<close> are signed 8-bit integers (values
  \<open>-128 .. 127\<close>), \<^verbatim>\<open>sad\<close> is an unsigned 16-bit integer. The fields hold these values as
  integers; the arithmetic numpy does on the 8-bit fields wraps around, which is written
  out where it happens (\<open>int8\<close> below).
\<close>

record block =
  blk_x :: int
  blk_y :: int
  blk_sad :: int

text \<open>The motion array of one frame: a list of rows, each a list of blocks.\<close>

type_synonym grid = "block list list"

text \<open>A rectangle \<^verbatim>\<open>[x, y, w, h]\<close> in grid units.\<close>

type_synonym rect = "int \<times> int \<times> int \<times> int"

text \<open>
  A float64 value of numpy: either not-a-number (the mean or variance of an empty
  slice) or a number, kept exact as a rational.
\<close>

datatype np_float = NaN | Val rat

text \<open>An entry of \<^verbatim>\<open>new_points\<close>: \<^verbatim>\<open>[[x0,y0,w,h],[vx,vy]]\<close>.\<close>

type_synonym region = "rect \<times> (np_float \<times> np_float)"

datatype error = IOError | IndexError

text \<open>
  The attributes of \<^verbatim>\<open>MotionAnalyser\<close> the analysis reads or writes. \<open>rows\<close> and
  \<open>cols\<close> are set by the base class from the camera's resolution. \<open>fobj\<close> is the debug
  file: \<open>None\<close> while it is not open, otherwise the arrays written so far.
  \<open>config\<close> is \<open>None\<close> for a configuration object that tests false, otherwise its
  dictionary \<^verbatim>\<open>config.conf\<close>. The attributes that only serve the on-screen display
  (\<^verbatim>\<open>show\<close>, \<^verbatim>\<open>big\<close>, \<^verbatim>\<open>display\<close>, \<^verbatim>\<open>xcross\<close>, \<^verbatim>\<open>ycross\<close>) and the clock \<^verbatim>\<open>t0\<close> are left out.
\<close>

record analyser =
  minArea :: int
  maxArea :: int
  sadThreshold :: int
  started :: bool
  vmin :: int
  vmax :: int
  frame :: int
  processed_frames :: int
  maxMovements :: rat
  debug :: bool
  fobj :: "grid list option"
  config :: "(string \<rightharpoonup> int) option"
  rows :: int
  cols :: int

section \<open>The rectangle merger: \<^verbatim>\<open>intersects\<close> and \<^verbatim>\<open>removeIntersections\<close>\<close>

definition extend :: int where
  "extend = 3"

text \<open>\<^verbatim>\<open>xn >= xo and xn+wn <= xo+wo and yn >= yo and yn+hn <= yo+ho\<close>\<close>

fun new_in_old :: "rect \<Rightarrow> rect \<Rightarrow> bool" where
  "new_in_old (xo, yo, wo, ho) (xn, yn, wn, hn) \<longleftrightarrow>
     xn \<ge> xo \<and> xn + wn \<le> xo + wo \<and> yn \<ge> yo \<and> yn + hn \<le> yo + ho"

text \<open>\<^verbatim>\<open>xo > xn and xo+wo <= xn+wn and yo > yn and yo+ho <= yn+hn\<close>\<close>

fun old_in_new :: "rect \<Rightarrow> rect \<Rightarrow> bool" where
  "old_in_new (xo, yo, wo, ho) (xn, yn, wn, hn) \<longleftrightarrow>
     xo > xn \<and> xo + wo \<le> xn + wn \<and> yo > yn \<and> yo + ho \<le> yn + hn"

text \<open>
  The proximity test of the loop body: the pair \<^verbatim>\<open>(xint, yint)\<close> computed from the
  new rectangle extended by \<open>extend\<close> and clamped to the grid.
\<close>

fun xint_yint :: "int \<Rightarrow> int \<Rightarrow> rect \<Rightarrow> rect \<Rightarrow> bool \<times> bool" where
  "xint_yint cols' rows' (xo, yo, wo, ho) (xn, yn, wn, hn) =
     (let x1nn = max (xn - extend) 0;
          y1nn = max (yn - extend) 0;
          x2nn = min (xn + wn + extend) cols';
          y2nn = min (yn + hn + extend) rows'
      in if xo > x1nn \<and> xo + wo \<le> x2nn \<and> yo > y1nn \<and> yo + ho \<le> y2nn
         then (True, True)
         else (let xmin = min xo x1nn;
                   xmax = max (xo + wo) x2nn;
                   xint = (xmax - xmin \<le> wo + wn + 2 * extend);
                   ymin = min yo y1nn;
                   ymax = max (yo + ho) y2nn;
                   yint = (ymax - ymin \<le> ho + hn + 2 * extend)
               in (xint, yint)))"

definition joins :: "int \<Rightarrow> int \<Rightarrow> rect \<Rightarrow> rect \<Rightarrow> bool" where
  "joins cols' rows' old new \<longleftrightarrow> fst (xint_yint cols' rows' old new) \<and> snd (xint_yint cols' rows' old new)"

text \<open>The union of the 'original' boxes.\<close>

fun union_rect :: "rect \<Rightarrow> rect \<Rightarrow> rect" where
  "union_rect (xo, yo, wo, ho) (xn, yn, wn, hn) =
     (let xmin = min xo xn;
          xmax = max (xo + wo) (xn + wn);
          ymin = min yo yn;
          ymax = max (yo + ho) (yn + hn)
      in (xmin, ymin, xmax - xmin, ymax - ymin))"

text \<open>\<^verbatim>\<open>rects.pop(i)\<close> for an index inside the list (the only use the loop makes of it).\<close>

definition pop :: "'a list \<Rightarrow> nat \<Rightarrow> 'a list" where
  "pop xs i = take i xs @ drop (Suc i) xs"

text \<open>
  The loop \<^verbatim>\<open>for xo,yo,wo,ho in rects\<close> of \<^verbatim>\<open>intersects\<close>. Python's list iterator keeps
  a position, reads \<^verbatim>\<open>rects[position]\<close> as long as the position is below the current
  length of the list, and advances by one; the loop body changes the list under it
  (\<^verbatim>\<open>rects.pop(i)\<close>, \<^verbatim>\<open>rects[i] = ...\<close>). The body's own counter \<^verbatim>\<open>i\<close> starts at 0 and is
  incremented once on every path that goes on to the next iteration, so it always
  equals the iterator's position: one index \<open>i\<close> stands for both.
\<close>

function intersects_loop :: "int \<Rightarrow> int \<Rightarrow> rect list \<Rightarrow> nat \<Rightarrow> bool \<Rightarrow> rect \<Rightarrow> rect list" where
  "intersects_loop cols' rows' rects i append_flag new =
     (if i < length rects then
        (if new_in_old (rects ! i) new then rects
         else if old_in_new (rects ! i) new then
           intersects_loop cols' rows' (pop rects i) (i + 1) False new
         else if joins cols' rows' (rects ! i) new then
           intersects_loop cols' rows' (rects[i := union_rect (rects ! i) new]) (i + 1) False new
         else intersects_loop cols' rows' rects (i + 1) append_flag new)
      else if append_flag then rects @ [new] else rects)"
  by pat_completeness auto
termination
  by (relation "measure (\<lambda>(c, r, rects, i, a, n). length rects - i)") (auto simp: pop_def)

declare intersects_loop.simps [simp del]

definition intersects :: "analyser \<Rightarrow> rect list \<Rightarrow> rect \<Rightarrow> rect list" where
  "intersects self rects new = intersects_loop (cols self) (rows self) rects 0 True new"

text \<open>
  \<^verbatim>\<open>removeIntersections\<close>: the contours are given by their bounding rectangles
  (\<^verbatim>\<open>cv2.boundingRect(cnt)\<close>), in the order \<^verbatim>\<open>cv2.findContours\<close> returned them.
\<close>

fun removeIntersections_loop :: "analyser \<Rightarrow> rect list \<Rightarrow> rect list \<Rightarrow> rect list" where
  "removeIntersections_loop self rects [] = rects"
| "removeIntersections_loop self rects ((x, y, w, h) # contours) =
     (if w * h > maxArea self then removeIntersections_loop self rects contours
      else if length rects > 0 then
        removeIntersections_loop self (intersects self rects (x, y, w, h)) contours
      else removeIntersections_loop self (rects @ [(x, y, w, h)]) contours)"

definition removeIntersections :: "analyser \<Rightarrow> rect list \<Rightarrow> rect list" where
  "removeIntersections self contours = removeIntersections_loop self [] contours"

text \<open>
  What a scan can leave in the list in the place of an entry \<open>old\<close>, as a list of no or one
  rectangle: the entry itself; nothing, for an entry that does not contain \<open>new\<close> and
  lies strictly inside it; or the union of the two, for an entry that neither contains
  \<open>new\<close> nor lies strictly inside it and that joins it. (A shorthand for the statements
  about the merger below.)
\<close>

abbreviation (input) scan_leaves :: "int \<Rightarrow> int \<Rightarrow> rect \<Rightarrow> rect \<Rightarrow> rect list \<Rightarrow> bool" where
  "scan_leaves cols' rows' new old t \<equiv>
     t = [old] \<or>
     (t = [] \<and> \<not> new_in_old old new \<and> old_in_new old new) \<or>
     (t = [union_rect old new] \<and> \<not> new_in_old old new \<and> \<not> old_in_new old new \<and>
      joins cols' rows' old new)"

section \<open>Configuration setters\<close>

text \<open>\<^verbatim>\<open>if self.config: self.config.conf[key] = value\<close>\<close>

definition conf_store :: "analyser \<Rightarrow> string \<Rightarrow> int \<Rightarrow> (string \<rightharpoonup> int) option" where
  "conf_store self key value =
     (case config self of None \<Rightarrow> None | Some conf \<Rightarrow> Some (conf(key \<mapsto> value)))"

definition set_debug :: "analyser \<Rightarrow> bool \<Rightarrow> analyser" where
  "set_debug self value =
     (if value then self\<lparr>debug := True\<rparr> else self\<lparr>debug := False, fobj := None\<rparr>)"

definition set_vMax :: "analyser \<Rightarrow> int \<Rightarrow> analyser" where
  "set_vMax self value =
     (if value > vmin self
      then self\<lparr>vmax := value, config := conf_store self ''vMax'' value\<rparr>
      else self)"

definition set_vMin :: "analyser \<Rightarrow> int \<Rightarrow> analyser" where
  "set_vMin self value =
     (let value = (if value < 1 then 1 else value)
      in self\<lparr>vmin := value, config := conf_store self ''vMin'' value\<rparr>)"

definition set_maxArea :: "analyser \<Rightarrow> int \<Rightarrow> analyser" where
  "set_maxArea self value =
     (if value > minArea self
      then self\<lparr>maxArea := value, config := conf_store self ''maxArea'' value\<rparr>
      else self)"

definition set_minArea :: "analyser \<Rightarrow> int \<Rightarrow> analyser" where
  "set_minArea self value =
     (let value = (if value < 1 then 1 else value)
      in self\<lparr>minArea := value, config := conf_store self ''minArea'' value\<rparr>)"

definition set_sadThreshold :: "analyser \<Rightarrow> int \<Rightarrow> analyser" where
  "set_sadThreshold self value =
     (if value \<ge> 0 \<and> value < 16384
      then self\<lparr>sadThreshold := value, config := conf_store self ''sadThreshold'' value\<rparr>
      else self)"

section \<open>The numpy operations \<^verbatim>\<open>analyse\<close> uses\<close>

text \<open>A field of the array (\<^verbatim>\<open>a['x']\<close>) and the elementwise operations on whole arrays.\<close>

definition np_field :: "(block \<Rightarrow> int) \<Rightarrow> grid \<Rightarrow> int list list" where
  "np_field f a = map (map f) a"

text \<open>
  The value a signed 8-bit integer takes for a mathematical result: \<^verbatim>\<open>np.abs\<close> and \<^verbatim>\<open>+\<close>
  on the int8 arrays \<^verbatim>\<open>a['x']\<close>, \<^verbatim>\<open>a['y']\<close> give int8 arrays, so \<^verbatim>\<open>np.abs(-128)\<close> is \<open>-128\<close> and
  \<open>100 + 50\<close> is \<open>-106\<close>.
\<close>

definition int8 :: "int \<Rightarrow> int" where
  "int8 v = (v + 128) mod 256 - 128"

definition np_abs :: "int list list \<Rightarrow> int list list" where
  "np_abs m = map (map (\<lambda>e. int8 \<bar>e\<bar>)) m"

definition np_add :: "int list list \<Rightarrow> int list list \<Rightarrow> int list list" where
  "np_add m1 m2 = map2 (map2 (\<lambda>e1 e2. int8 (e1 + e2))) m1 m2"

definition np_greater :: "int list list \<Rightarrow> int \<Rightarrow> bool list list" where
  "np_greater m v = map (map (\<lambda>e. e > v)) m"

definition np_less :: "int list list \<Rightarrow> int \<Rightarrow> bool list list" where
  "np_less m v = map (map (\<lambda>e. e < v)) m"

text \<open>
  \<^verbatim>\<open>np.logical_and(x1, x2, out)\<close>: the third positional parameter of the ufunc is the
  array the result is stored into. The result is the elementwise conjunction of \<open>x1\<close>
  and \<open>x2\<close>; what \<open>out\<close> held before the call is overwritten and has no part in it.
\<close>

definition np_logical_and :: "bool list list \<Rightarrow> bool list list \<Rightarrow> bool list list \<Rightarrow> bool list list" where
  "np_logical_and x1 x2 out = map2 (map2 (\<and>)) x1 x2"

definition count_nonzero :: "bool list list \<Rightarrow> int" where
  "count_nonzero m = int (length (filter (\<lambda>e. e) (concat m)))"

text \<open>
  An integer index into an axis of length \<open>n\<close>: a negative index counts from the end,
  an index outside \<open>-n .. n-1\<close> raises \<^verbatim>\<open>IndexError\<close> (\<open>None\<close> here).
\<close>

definition np_index :: "nat \<Rightarrow> int \<Rightarrow> nat option" where
  "np_index n i =
     (if 0 \<le> i \<and> i < int n then Some (nat i)
      else if - int n \<le> i \<and> i < 0 then Some (nat (i + int n))
      else None)"

text \<open>\<^verbatim>\<open>a[y0,x0]\<close>\<close>

definition item :: "grid \<Rightarrow> int \<Rightarrow> int \<Rightarrow> error + block" where
  "item a y0 x0 =
     (case np_index (length a) y0 of
        None \<Rightarrow> Inl IndexError
      | Some y \<Rightarrow>
          (case np_index (length (a ! y)) x0 of
             None \<Rightarrow> Inl IndexError
           | Some x \<Rightarrow> Inr (a ! y ! x)))"

text \<open>
  A slice bound on an axis of length \<open>n\<close>: a negative bound counts from the end, and
  the bound is clipped to \<open>0 .. n\<close>; a slice never raises.
\<close>

definition slice_bound :: "nat \<Rightarrow> int \<Rightarrow> nat" where
  "slice_bound n i = (if i < 0 then nat (max 0 (i + int n)) else min n (nat i))"

definition np_slice :: "'a list \<Rightarrow> int \<Rightarrow> int \<Rightarrow> 'a list" where
  "np_slice xs i j =
     (let start = slice_bound (length xs) i; stop = slice_bound (length xs) j
      in take (stop - start) (drop start xs))"

text \<open>The slice \<^verbatim>\<open>a[y0:y1,x0:x1]\<close>, as the list of its rows.\<close>

definition window :: "grid \<Rightarrow> int \<Rightarrow> int \<Rightarrow> int \<Rightarrow> int \<Rightarrow> grid" where
  "window a y0 y1 x0 x1 = map (\<lambda>row. np_slice row x0 x1) (np_slice a y0 y1)"

text \<open>
  \<^verbatim>\<open>.var()\<close> and \<^verbatim>\<open>np.mean\<close> are numpy's float64 reductions of a slice: they round, in an
  order of operations that is numpy's own, and are not defined here. The analysis takes
  them as parameters \<open>np_var\<close> and \<open>np_mean\<close>, functions from a two-dimensional slice of
  one field (its rows) to a float64, so that what is proved holds for the results numpy
  really computes.
\<close>

type_synonym reduction = "int list list \<Rightarrow> np_float"

text \<open>\<^verbatim>\<open>sad_var < 2*self.sadThreshold\<close> on a float: false when the float is not-a-number.\<close>

fun float_less :: "np_float \<Rightarrow> int \<Rightarrow> bool" where
  "float_less NaN n \<longleftrightarrow> False"
| "float_less (Val v) n \<longleftrightarrow> v < of_int n"

section \<open>\<^verbatim>\<open>debug_out\<close> and \<^verbatim>\<open>analyse\<close>\<close>

text \<open>
  \<open>openable\<close> says whether \<^verbatim>\<open>open("debug_motion.data", "wb")\<close> succeeds; when it does
  not, the exception is raised again (\<^verbatim>\<open>except: raise\<close>).
\<close>

definition debug_out :: "bool \<Rightarrow> analyser \<Rightarrow> grid \<Rightarrow> error + analyser" where
  "debug_out openable self array =
     (case fobj self of
        None \<Rightarrow>
          (if openable then Inr (self\<lparr>fobj := Some [array]\<rparr>) else Inl IOError)
      | Some written \<Rightarrow> Inr (self\<lparr>fobj := Some (written @ [array])\<rparr>))"

text \<open>
  What one call of \<^verbatim>\<open>analyse\<close> does towards its caller and the tracker: an exception
  leaves the method, \<^verbatim>\<open>tracker.setup_sizes\<close> is called (first frame), the method returns
  without calling the tracker, or \<^verbatim>\<open>tracker.update_tracks(frame, new_points)\<close> is called.
\<close>

datatype outcome =
    Raised error
  | Setup_sizes int int
  | Returned
  | Update_tracks int "region list"

definition has_movement :: "analyser \<Rightarrow> grid \<Rightarrow> bool list list" where
  "has_movement self a =
     (let mag = np_add (np_abs (np_field blk_x a)) (np_abs (np_field blk_y a))
      in np_logical_and (np_greater mag (vmin self)) (np_less mag (vmax self))
           (np_greater (np_field blk_sad a) (sadThreshold self)))"

text \<open>
  The body of the loop \<^verbatim>\<open>for x0,y0,w,h in rects\<close>, on the loop's variables
  \<^verbatim>\<open>(new_points, rejects, num_small, num_large)\<close>.
\<close>

type_synonym scan = "region list \<times> int \<times> int \<times> int"

fun scan_rect :: "reduction \<Rightarrow> reduction \<Rightarrow> analyser \<Rightarrow> grid \<Rightarrow> scan \<Rightarrow> rect \<Rightarrow> error + scan" where
  "scan_rect np_var np_mean self a (new_points, rejects, num_small, num_large) (x0, y0, w, h) =
     (let area = w * h in
      if area > maxArea self then Inr (new_points, rejects + 1, num_small, num_large)
      else
        (let x1 = x0 + w; y1 = y0 + h in
         if w < 2 \<and> h < 2 then
           (case item a y0 x0 of
              Inl e \<Rightarrow> Inl e
            | Inr c \<Rightarrow>
                (let vx = Val (of_int (blk_x c));
                     vy = Val (of_int (blk_y c));
                     sad_var = blk_sad c;
                     rejects = (if sad_var < sadThreshold self then rejects + 1 else rejects)
                 in Inr (new_points @ [((x0, y0, w, h), (vx, vy))], rejects, num_small + 1, num_large)))
         else
           (let sad_var = np_var (np_field blk_sad (window a y0 y1 x0 x1)) in
            if float_less sad_var (2 * sadThreshold self)
            then Inr (new_points, rejects + 1, num_small, num_large)
            else
              (let vx = np_mean (np_field blk_x (window a y0 y1 x0 x1));
                   vy = np_mean (np_field blk_y (window a y0 y1 x0 x1))
               in Inr (new_points @ [((x0, y0, w, h), (vx, vy))], rejects, num_small, num_large + 1)))))"

text \<open>
  What one pass of the loop body appends to \<^verbatim>\<open>new_points\<close> for a rectangle (nothing or
  one region): the body above without its counters, used to describe the list a whole
  frame emits.
\<close>

definition appended :: "reduction \<Rightarrow> reduction \<Rightarrow> analyser \<Rightarrow> grid \<Rightarrow> rect \<Rightarrow> region list" where
  "appended np_var np_mean self a r =
     (case r of (x0, y0, w, h) \<Rightarrow>
        if w * h > maxArea self then []
        else if w < 2 \<and> h < 2 then
          (case item a y0 x0 of
             Inl e \<Rightarrow> []
           | Inr c \<Rightarrow> [(r, (Val (of_int (blk_x c)), Val (of_int (blk_y c))))])
        else if float_less (np_var (np_field blk_sad (window a y0 (y0 + h) x0 (x0 + w)))) (2 * sadThreshold self)
        then []
        else [(r, (np_mean (np_field blk_x (window a y0 (y0 + h) x0 (x0 + w))),
                   np_mean (np_field blk_y (window a y0 (y0 + h) x0 (x0 + w)))))])"

fun scan_rects :: "reduction \<Rightarrow> reduction \<Rightarrow> analyser \<Rightarrow> grid \<Rightarrow> scan \<Rightarrow> rect list \<Rightarrow> error + scan" where
  "scan_rects np_var np_mean self a acc [] = Inr acc"
| "scan_rects np_var np_mean self a acc (r # rects) =
     (case scan_rect np_var np_mean self a acc r of
        Inl e \<Rightarrow> Inl e
      | Inr acc' \<Rightarrow> scan_rects np_var np_mean self a acc' rects)"

text \<open>
  \<^verbatim>\<open>analyse\<close>. \<open>findContours\<close> stands for \<^verbatim>\<open>cv2.findContours\<close> on the mask followed by
  \<^verbatim>\<open>cv2.boundingRect\<close> on each contour (OpenCV, outside this repository); \<open>index\<close> is
  \<^verbatim>\<open>self.camera.frame.index\<close>; \<open>np_var\<close> and \<open>np_mean\<close> are numpy's reductions. The mask \<^verbatim>\<open>has_movement.astype(np.uint8) * 255\<close> is nonzero
  exactly where \<open>has_movement\<close> is true, so the boolean array stands for it. The
  drawing done under \<^verbatim>\<open>self.show\<close> and the timing are left out.
\<close>

definition analyse ::
  "(bool list list \<Rightarrow> rect list) \<Rightarrow> reduction \<Rightarrow> reduction \<Rightarrow> bool \<Rightarrow> analyser \<Rightarrow> int \<Rightarrow> grid \<Rightarrow>
   analyser \<times> outcome" where
  "analyse findContours np_var np_mean openable self0 index a =
     (let self1 = self0\<lparr>frame := index, processed_frames := processed_frames self0 + 1\<rparr> in
      case (if debug self1 then debug_out openable self1 a else Inr self1) of
        Inl e \<Rightarrow> (self1, Raised e)
      | Inr self \<Rightarrow>
          if \<not> started self then
            (self\<lparr>maxMovements := of_int (rows self * cols self) / 8, started := True\<rparr>,
             Setup_sizes (rows self) (cols self - 1))
          else
            (let moving_elements = count_nonzero (has_movement self a) in
             if of_int moving_elements > maxMovements self then (self, Returned)
             else
               (let mask = has_movement self a;
                    contours = findContours mask;
                    rects = removeIntersections self contours
                in case scan_rects np_var np_mean self a ([], 0, 0, 0) rects of
                     Inl e \<Rightarrow> (self, Raised e)
                   | Inr (new_points, rejects, num_small, num_large) \<Rightarrow>
                       (self, Update_tracks (frame self) new_points))))"

text \<open>
  What happens to an analyser between frames: a frame arrives (with the open's outcome
  and the frame index), or the control surface calls a setter.
\<close>

datatype event =
    Frame bool int grid
  | Set_debug bool
  | Set_vMax int
  | Set_vMin int
  | Set_maxArea int
  | Set_minArea int
  | Set_sadThreshold int

fun step ::
  "(bool list list \<Rightarrow> rect list) \<Rightarrow> reduction \<Rightarrow> reduction \<Rightarrow> analyser \<Rightarrow> event \<Rightarrow> analyser" where
  "step fc np_var np_mean self (Frame openable index a) =
     fst (analyse fc np_var np_mean openable self index a)"
| "step fc np_var np_mean self (Set_debug v) = set_debug self v"
| "step fc np_var np_mean self (Set_vMax v) = set_vMax self v"
| "step fc np_var np_mean self (Set_vMin v) = set_vMin self v"
| "step fc np_var np_mean self (Set_maxArea v) = set_maxArea self v"
| "step fc np_var np_mean self (Set_minArea v) = set_minArea self v"
| "step fc np_var np_mean self (Set_sadThreshold v) = set_sadThreshold self v"

definition run ::
  "(bool list list \<Rightarrow> rect list) \<Rightarrow> reduction \<Rightarrow> reduction \<Rightarrow> analyser \<Rightarrow> event list \<Rightarrow> analyser" where
  "run fc np_var np_mean self events = foldl (step fc np_var np_mean) self events"

section \<open>Sample inputs\<close>

text \<open>
  Shorthands for the concrete inputs of the examples below: a calibrated analyser on a
  grid of \<open>rows'\<close> by \<open>cols'\<close> blocks with the given \<^verbatim>\<open>sadThreshold\<close> and \<^verbatim>\<open>maxArea\<close>
  (\<^verbatim>\<open>vMin = 2\<close>, \<^verbatim>\<open>vMax = 40\<close>, debugging off), a block, a block at rest, and a row of eight
  blocks of which only the first three may move. \<open>exact_var\<close> and \<open>exact_mean\<close> are the
  variance and the mean without rounding; they stand for numpy's reductions on the sample
  frames only, where the slices are single rows of at most three small integers and every intermediate
  value of the float64 computation (sum, mean, deviations, squares, their sum and the
  quotient) is an integer or a half and so is computed without rounding.
\<close>

abbreviation (input) exact_mean :: reduction where
  "exact_mean \<equiv>
     (\<lambda>m. if concat m = [] then NaN
           else Val (of_int (sum_list (concat m)) / of_nat (length (concat m))))"

abbreviation (input) exact_var :: reduction where
  "exact_var \<equiv>
     (\<lambda>m. if concat m = [] then NaN
           else Val (sum_list (map (\<lambda>x. (of_int x - of_int (sum_list (concat m)) / of_nat (length (concat m))) ^ 2)
                                 (concat m))
                     / of_nat (length (concat m))))"

abbreviation (input) cam :: "int \<Rightarrow> int \<Rightarrow> int \<Rightarrow> int \<Rightarrow> analyser" where
  "cam rows' cols' thr area \<equiv>
     \<lparr>minArea = 1, maxArea = area, sadThreshold = thr, started = True, vmin = 2, vmax = 40,
      frame = 0, processed_frames = 1, maxMovements = of_int (rows' * cols') / 8, debug = False,
      fobj = None, config = None, rows = rows', cols = cols'\<rparr>"

abbreviation (input) blk :: "int \<Rightarrow> int \<Rightarrow> int \<Rightarrow> block" where
  "blk vx vy s \<equiv> \<lparr>blk_x = vx, blk_y = vy, blk_sad = s\<rparr>"

abbreviation (input) still :: block where
  "still \<equiv> \<lparr>blk_x = 0, blk_y = 0, blk_sad = 0\<rparr>"

abbreviation (input) row8 :: "block \<Rightarrow> block \<Rightarrow> block \<Rightarrow> block list" where
  "row8 b0 b1 b2 \<equiv> [b0, b1, b2, still, still, still, still, still]"

section \<open>Properties of the merge scan\<close>

lemma length_pop: "i < length xs \<Longrightarrow> length (pop xs i) = length xs - 1"
  by (simp add: pop_def)

lemma nth_pop_before: "k < i \<Longrightarrow> i < length xs \<Longrightarrow> pop xs i ! k = xs ! k"
  by (simp add: pop_def nth_append)

lemma set_pop_subset: "set (pop xs i) \<subseteq> set xs"
  by (auto simp: pop_def dest: in_set_takeD in_set_dropD)

lemma union_rect_idem: "union_rect (union_rect old new) new = union_rect old new"
  by (cases old; cases new) (simp add: Let_def min_def max_def)

lemma intersects_loop_length:
  "length (intersects_loop c r rects i app new) \<le> length rects + (if app then 1 else 0)"
proof (induction c r rects i app new rule: intersects_loop.induct)
  case (1 c r rects i app new)
  show ?case
  proof (cases "i < length rects")
    case False
    then show ?thesis by (simp add: intersects_loop.simps)
  next
    case True
    note lt = True
    show ?thesis
    proof (cases "new_in_old (rects ! i) new")
      case True
      with lt show ?thesis by (simp add: intersects_loop.simps)
    next
      case nin: False
      show ?thesis
      proof (cases "old_in_new (rects ! i) new")
        case True
        with lt nin "1.IH"(1) have "length (intersects_loop c r (pop rects i) (i + 1) False new) \<le> length (pop rects i)"
          by simp
        with lt nin True show ?thesis
          by (subst intersects_loop.simps) (simp add: length_pop)
      next
        case oin: False
        show ?thesis
        proof (cases "joins c r (rects ! i) new")
          case True
          with lt nin oin "1.IH"(2) show ?thesis
            by (subst intersects_loop.simps) simp
        next
          case False
          with lt nin oin "1.IH"(3) show ?thesis
            by (subst intersects_loop.simps) simp
        qed
      qed
    qed
  qed
qed

lemma intersects_loop_prefix:
  "k < i \<Longrightarrow> k < length rects \<Longrightarrow>
   k < length (intersects_loop c r rects i app new) \<and> intersects_loop c r rects i app new ! k = rects ! k"
proof (induction c r rects i app new rule: intersects_loop.induct)
  case (1 c r rects i app new)
  show ?case
  proof (cases "i < length rects")
    case False
    with "1.prems" show ?thesis by (simp add: intersects_loop.simps nth_append)
  next
    case lt: True
    show ?thesis
    proof (cases "new_in_old (rects ! i) new")
      case True
      with lt "1.prems" show ?thesis by (simp add: intersects_loop.simps)
    next
      case nin: False
      show ?thesis
      proof (cases "old_in_new (rects ! i) new")
        case True
        with lt nin "1.IH"(1) "1.prems" show ?thesis
          by (subst (1 2) intersects_loop.simps) (simp add: length_pop nth_pop_before)
      next
        case oin: False
        show ?thesis
        proof (cases "joins c r (rects ! i) new")
          case True
          with lt nin oin "1.IH"(2) "1.prems" show ?thesis
            by (subst (1 2) intersects_loop.simps) simp
        next
          case False
          with lt nin oin "1.IH"(3) "1.prems" show ?thesis
            by (subst (1 2) intersects_loop.simps) simp
        qed
      qed
    qed
  qed
qed

lemma intersects_loop_origin:
  "x \<in> set (intersects_loop c r rects i app new) \<Longrightarrow>
   x \<in> set rects \<or> (\<exists>old \<in> set rects. x = union_rect old new) \<or> (app \<and> x = new)"
proof (induction c r rects i app new rule: intersects_loop.induct)
  case (1 c r rects i app new)
  show ?case
  proof (cases "i < length rects")
    case False
    with "1.prems" show ?thesis by (auto simp add: intersects_loop.simps split: if_splits)
  next
    case lt: True
    show ?thesis
    proof (cases "new_in_old (rects ! i) new")
      case True
      with lt "1.prems" show ?thesis by (simp add: intersects_loop.simps)
    next
      case nin: False
      show ?thesis
      proof (cases "old_in_new (rects ! i) new")
        case True
        with lt nin "1.prems" have "x \<in> set (intersects_loop c r (pop rects i) (i + 1) False new)"
          by (subst (asm) intersects_loop.simps) simp
        with lt nin True "1.IH"(1)
        have "x \<in> set (pop rects i) \<or> (\<exists>old \<in> set (pop rects i). x = union_rect old new)"
          by simp
        with set_pop_subset [of rects i] show ?thesis by blast
      next
        case oin: False
        show ?thesis
        proof (cases "joins c r (rects ! i) new")
          case True
          with lt nin oin "1.prems"
          have "x \<in> set (intersects_loop c r (rects[i := union_rect (rects ! i) new]) (i + 1) False new)"
            by (subst (asm) intersects_loop.simps) simp
          with lt nin oin True "1.IH"(2)
          have "x \<in> set (rects[i := union_rect (rects ! i) new]) \<or>
                (\<exists>old \<in> set (rects[i := union_rect (rects ! i) new]). x = union_rect old new)"
            by simp
          then show ?thesis
          proof
            assume "x \<in> set (rects[i := union_rect (rects ! i) new])"
            then have "x = union_rect (rects ! i) new \<or> x \<in> set rects"
              using set_update_subset_insert [of rects i "union_rect (rects ! i) new"] by blast
            with lt show ?thesis using nth_mem [of i rects] by blast
          next
            assume "\<exists>old \<in> set (rects[i := union_rect (rects ! i) new]). x = union_rect old new"
            then obtain old where o: "old \<in> set (rects[i := union_rect (rects ! i) new])" "x = union_rect old new"
              by blast
            then have "old = union_rect (rects ! i) new \<or> old \<in> set rects"
              using set_update_subset_insert [of rects i "union_rect (rects ! i) new"] by blast
            then show ?thesis
            proof
              assume "old = union_rect (rects ! i) new"
              with o have "x = union_rect (rects ! i) new" by (simp add: union_rect_idem)
              with lt show ?thesis using nth_mem [of i rects] by blast
            next
              assume "old \<in> set rects"
              with o show ?thesis by blast
            qed
          qed
        next
          case False
          with lt nin oin "1.prems" have "x \<in> set (intersects_loop c r rects (i + 1) app new)"
            by (subst (asm) intersects_loop.simps) simp
          with lt nin oin False "1.IH"(3) show ?thesis by simp
        qed
      qed
    qed
  qed
qed

lemma intersects_loop_reach:
  assumes "i \<le> length rects"
    and "\<forall>k<i. \<not> new_in_old (rects ! k) new \<and> \<not> old_in_new (rects ! k) new"
  shows "\<exists>rects' app'.
           intersects_loop c r rects 0 app new = intersects_loop c r rects' i app' new \<and>
           length rects' = length rects \<and>
           (\<forall>k<length rects. rects' ! k =
              (if k < i \<and> joins c r (rects ! k) new then union_rect (rects ! k) new else rects ! k))"
  using assms
proof (induction i)
  case 0
  show ?case
    by (rule exI [of _ rects], rule exI [of _ app]) simp
next
  case (Suc i)
  then obtain rects' app' where
    eq: "intersects_loop c r rects 0 app new = intersects_loop c r rects' i app' new" and
    len: "length rects' = length rects" and
    nth: "\<forall>k<length rects. rects' ! k =
              (if k < i \<and> joins c r (rects ! k) new then union_rect (rects ! k) new else rects ! k)"
    by force
  from Suc.prems have lt: "i < length rects" by simp
  with nth have same: "rects' ! i = rects ! i" by simp
  from Suc.prems have no: "\<not> new_in_old (rects ! i) new" "\<not> old_in_new (rects ! i) new" by simp_all
  show ?case
  proof (cases "joins c r (rects ! i) new")
    case True
    with lt len same no
    have "intersects_loop c r rects' i app' new =
          intersects_loop c r (rects'[i := union_rect (rects ! i) new]) (Suc i) False new"
      by (subst intersects_loop.simps) simp
    with eq len nth lt True show ?thesis
      by (intro exI [of _ "rects'[i := union_rect (rects ! i) new]"] exI [of _ False])
         (auto simp: nth_list_update less_Suc_eq)
  next
    case False
    with lt len same no
    have "intersects_loop c r rects' i app' new = intersects_loop c r rects' (Suc i) app' new"
      by (subst intersects_loop.simps) simp
    with eq len nth lt False show ?thesis
      by (intro exI [of _ rects'] exI [of _ app']) (auto simp: less_Suc_eq)
  qed
qed

lemma set_pop_nth: "i < length xs \<Longrightarrow> x \<in> set (pop xs i) \<longleftrightarrow> (\<exists>k<length xs. k \<noteq> i \<and> x = xs ! k)"
proof
  assume lt: "i < length xs" and "x \<in> set (pop xs i)"
  then consider "x \<in> set (take i xs)" | "x \<in> set (drop (Suc i) xs)" by (auto simp: pop_def)
  then show "\<exists>k<length xs. k \<noteq> i \<and> x = xs ! k"
  proof cases
    case 1
    then obtain k where "k < i" "x = xs ! k" using lt by (auto simp: in_set_conv_nth)
    with lt show ?thesis by (intro exI [of _ k]) simp
  next
    case 2
    then obtain k where "k < length xs - Suc i" "x = xs ! (Suc i + k)" using lt by (auto simp: in_set_conv_nth)
    with lt show ?thesis by (intro exI [of _ "Suc i + k"]) simp
  qed
next
  assume lt: "i < length xs" and "\<exists>k<length xs. k \<noteq> i \<and> x = xs ! k"
  then obtain k where k: "k < length xs" "k \<noteq> i" "x = xs ! k" by blast
  show "x \<in> set (pop xs i)"
  proof (cases "k < i")
    case True
    with k lt have "x \<in> set (take i xs)" by (auto simp: in_set_conv_nth intro!: exI [of _ k])
    then show ?thesis by (simp add: pop_def)
  next
    case False
    with k lt have "x \<in> set (drop (Suc i) xs)"
      by (auto simp: in_set_conv_nth intro!: exI [of _ "k - Suc i"])
    then show ?thesis by (simp add: pop_def)
  qed
qed

lemma pop_append: "pop (pre @ xs) (length pre + j) = pre @ pop xs j"
  by (simp add: pop_def)

lemma intersects_loop_shift:
  "intersects_loop c r (pre @ xs) (length pre + j) app new = pre @ intersects_loop c r xs j app new"
proof (induction c r xs j app new rule: intersects_loop.induct)
  case (1 c r xs j app new)
  show ?case
  proof (cases "j < length xs")
    case False
    then show ?thesis
      by (subst (1 2) intersects_loop.simps) simp
  next
    case lt: True
    then have nth: "(pre @ xs) ! (length pre + j) = xs ! j" by simp
    show ?thesis
    proof (cases "new_in_old (xs ! j) new")
      case True
      with lt nth show ?thesis by (subst (1 2) intersects_loop.simps) simp
    next
      case nin: False
      show ?thesis
      proof (cases "old_in_new (xs ! j) new")
        case True
        from "1.IH"(1) [OF lt nin True]
        have "intersects_loop c r (pre @ pop xs j) (length pre + (j + 1)) False new =
              pre @ intersects_loop c r (pop xs j) (j + 1) False new" .
        with lt nin True nth show ?thesis
          by (subst (1 2) intersects_loop.simps) (simp add: pop_append)
      next
        case oin: False
        show ?thesis
        proof (cases "joins c r (xs ! j) new")
          case True
          from "1.IH"(2) [OF lt nin oin True]
          have "intersects_loop c r (pre @ xs[j := union_rect (xs ! j) new]) (length pre + (j + 1)) False new =
                pre @ intersects_loop c r (xs[j := union_rect (xs ! j) new]) (j + 1) False new" .
          with lt nin oin True nth show ?thesis
            by (subst (1 2) intersects_loop.simps) (simp add: list_update_append)
        next
          case False
          from "1.IH"(3) [OF lt nin oin False]
          have "intersects_loop c r (pre @ xs) (length pre + (j + 1)) app new =
                pre @ intersects_loop c r xs (j + 1) app new" .
          with lt nin oin False nth show ?thesis
            by (subst (1 2) intersects_loop.simps) simp
        qed
      qed
    qed
  qed
qed

lemma list_all2_kept:
  "list_all2 (\<lambda>old t. t = [old] \<or> P old t) xs (map (\<lambda>old. [old]) xs)"
  by (induction xs) simp_all

lemma concat_kept: "concat (map (\<lambda>old. [old]) xs) = xs"
  by (induction xs) simp_all

lemma intersects_loop_no_append:
  "\<not> app \<Longrightarrow>
   \<exists>ts. list_all2 (\<lambda>old t. t = [old] \<or>
             (t = [] \<and> \<not> new_in_old old new \<and> old_in_new old new) \<or>
             (t = [union_rect old new] \<and> \<not> new_in_old old new \<and> \<not> old_in_new old new \<and>
              joins c r old new))
           (drop j rects) ts \<and>
        intersects_loop c r rects j app new = take j rects @ concat ts"
proof (induction c r rects j app new rule: intersects_loop.induct)
  case (1 c r rects j app new)
  let ?R = "\<lambda>old t. t = [old] \<or>
             (t = [] \<and> \<not> new_in_old old new \<and> old_in_new old new) \<or>
             (t = [union_rect old new] \<and> \<not> new_in_old old new \<and> \<not> old_in_new old new \<and>
              joins c r old new)"
  show ?case
  proof (cases "j < length rects")
    case False
    with "1.prems" have "intersects_loop c r rects j app new = rects"
      by (subst intersects_loop.simps) simp
    with False show ?thesis by (intro exI [of _ "[]"]) simp
  next
    case lt: True
    then have dj: "drop j rects = rects ! j # drop (Suc j) rects"
      by (simp add: Cons_nth_drop_Suc)
    show ?thesis
    proof (cases "new_in_old (rects ! j) new")
      case True
      with lt have "intersects_loop c r rects j app new = rects"
        by (subst intersects_loop.simps) simp
      then show ?thesis
        using list_all2_kept [of _ "drop j rects"]
        by (intro exI [of _ "map (\<lambda>old. [old]) (drop j rects)"]) (simp add: concat_kept)
    next
      case nin: False
      show ?thesis
      proof (cases "old_in_new (rects ! j) new")
        case True
        from "1.IH"(1) [OF lt nin True] obtain ts where
          ts: "list_all2 ?R (drop (Suc j) (pop rects j)) ts"
              "intersects_loop c r (pop rects j) (j + 1) False new = take (Suc j) (pop rects j) @ concat ts"
          by auto
        from lt have d: "drop (Suc j) (pop rects j) = drop (Suc (Suc j)) rects"
          by (simp add: pop_def)
        from lt have t: "take (Suc j) (pop rects j) = take j rects @ take 1 (drop (Suc j) rects)"
          by (simp add: pop_def)
        have sp: "drop (Suc j) rects = take 1 (drop (Suc j) rects) @ drop (Suc (Suc j)) rects"
          by (metis append_take_drop_id drop_drop plus_1_eq_Suc)
        from ts(1) have ts1: "list_all2 ?R (drop (Suc (Suc j)) rects) ts"
          unfolding d .
        let ?ts = "[] # map (\<lambda>old. [old]) (take 1 (drop (Suc j) rects)) @ ts"
        have "list_all2 ?R (rects ! j # take 1 (drop (Suc j) rects) @ drop (Suc (Suc j)) rects) ?ts"
          using ts1 nin True list_all2_kept [of _ "take 1 (drop (Suc j) rects)"]
          by (auto intro!: list_all2_appendI)
        then have 1: "list_all2 ?R (drop j rects) ?ts"
          using dj sp by simp
        from lt nin True have "intersects_loop c r rects j app new =
              intersects_loop c r (pop rects j) (j + 1) False new"
          by (subst intersects_loop.simps) simp
        with ts(2) t have 2: "intersects_loop c r rects j app new = take j rects @ concat ?ts"
          by (simp add: concat_kept)
        from 1 2 show ?thesis by blast
      next
        case oin: False
        show ?thesis
        proof (cases "joins c r (rects ! j) new")
          case True
          let ?u = "union_rect (rects ! j) new"
          from "1.IH"(2) [OF lt nin oin True] obtain ts where
            ts: "list_all2 ?R (drop (j + 1) (rects[j := ?u])) ts"
                "intersects_loop c r (rects[j := ?u]) (j + 1) False new =
                   take (j + 1) (rects[j := ?u]) @ concat ts"
            by auto
          from lt have t: "take (j + 1) (rects[j := ?u]) = take j rects @ [?u]"
            by (simp add: take_Suc_conv_app_nth)
          from ts(1) nin oin True have 1: "list_all2 ?R (drop j rects) ([?u] # ts)"
            by (simp add: dj)
          from lt nin oin True have "intersects_loop c r rects j app new =
              intersects_loop c r (rects[j := ?u]) (j + 1) False new"
            by (subst intersects_loop.simps) simp
          with ts(2) t have 2: "intersects_loop c r rects j app new = take j rects @ concat ([?u] # ts)"
            by simp
          from 1 2 show ?thesis by blast
        next
          case False
          from "1.IH"(3) [OF lt nin oin False "1.prems"] obtain ts where
            ts: "list_all2 ?R (drop (j + 1) rects) ts"
                "intersects_loop c r rects (j + 1) app new = take (j + 1) rects @ concat ts"
            by auto
          from lt have t: "take (j + 1) rects = take j rects @ [rects ! j]"
            by (simp add: take_Suc_conv_app_nth)
          from ts(1) have 1: "list_all2 ?R (drop j rects) ([rects ! j] # ts)"
            by (simp add: dj)
          from lt nin oin False have "intersects_loop c r rects j app new =
              intersects_loop c r rects (j + 1) app new"
            by (subst intersects_loop.simps) simp
          with ts(2) t have 2: "intersects_loop c r rects j app new = take j rects @ concat ([rects ! j] # ts)"
            by simp
          from 1 2 show ?thesis by blast
        qed
      qed
    qed
  qed
qed

lemma scan_stops:
  assumes "k < length rects"
    and "\<forall>m<k. \<not> new_in_old (rects ! m) new \<and> \<not> old_in_new (rects ! m) new"
    and "new_in_old (rects ! k) new"
  shows "length (intersects_loop c r rects 0 app new) = length rects \<and>
         (\<forall>m<length rects. intersects_loop c r rects 0 app new ! m =
            (if m < k \<and> joins c r (rects ! m) new then union_rect (rects ! m) new else rects ! m))"
proof -
  from assms(1,2) obtain rects' app' where
    eq: "intersects_loop c r rects 0 app new = intersects_loop c r rects' k app' new" and
    len: "length rects' = length rects" and
    nth: "\<forall>m<length rects. rects' ! m =
            (if m < k \<and> joins c r (rects ! m) new then union_rect (rects ! m) new else rects ! m)"
    using intersects_loop_reach [of k rects new c r app] by force
  from nth assms(1) have same: "rects' ! k = rects ! k" by simp
  from assms(1,3) len same have "intersects_loop c r rects' k app' new = rects'"
    by (subst intersects_loop.simps) simp
  with eq len nth show ?thesis by simp
qed

lemma scan_joins:
  assumes "i < length rects"
    and "\<forall>k\<le>i. \<not> new_in_old (rects ! k) new \<and> \<not> old_in_new (rects ! k) new"
    and "joins c r (rects ! i) new"
  shows "\<exists>pre ts. length pre = i \<and>
           (\<forall>k<i. pre ! k =
              (if joins c r (rects ! k) new then union_rect (rects ! k) new else rects ! k)) \<and>
           list_all2 (scan_leaves c r new) (drop (Suc i) rects) ts \<and>
           intersects_loop c r rects 0 app new = pre @ union_rect (rects ! i) new # concat ts"
proof -
  from assms(1,2) obtain rects' app' where
    eq: "intersects_loop c r rects 0 app new = intersects_loop c r rects' i app' new" and
    len: "length rects' = length rects" and
    nth: "\<forall>k<length rects. rects' ! k =
            (if k < i \<and> joins c r (rects ! k) new then union_rect (rects ! k) new else rects ! k)"
    using intersects_loop_reach [of i rects new c r app] by force
  from nth assms(1) have same: "rects' ! i = rects ! i" by simp
  let ?u = "union_rect (rects ! i) new"
  let ?pre = "take i rects'"
  from len nth have d: "drop (Suc i) rects' = drop (Suc i) rects"
    by (intro nth_equalityI) simp_all
  from assms len same
  have step: "intersects_loop c r rects' i app' new =
        intersects_loop c r (rects'[i := ?u]) (i + 1) False new"
    by (subst intersects_loop.simps) simp
  from assms(1) len have upd: "rects'[i := ?u] = (?pre @ [?u]) @ drop (Suc i) rects"
    by (simp add: upd_conv_take_nth_drop d)
  from assms(1) len have lp: "length (?pre @ [?u]) + 0 = i + 1" by simp
  have "intersects_loop c r ((?pre @ [?u]) @ drop (Suc i) rects) (length (?pre @ [?u]) + 0) False new =
        (?pre @ [?u]) @ intersects_loop c r (drop (Suc i) rects) 0 False new"
    by (rule intersects_loop_shift)
  with step upd lp eq have res: "intersects_loop c r rects 0 app new =
        ?pre @ ?u # intersects_loop c r (drop (Suc i) rects) 0 False new"
    by simp
  from intersects_loop_no_append [of False new c r 0 "drop (Suc i) rects"] obtain ts where
    ts: "list_all2 (scan_leaves c r new) (drop (Suc i) rects) ts"
        "intersects_loop c r (drop (Suc i) rects) 0 False new = concat ts"
    by auto
  from assms(1) len nth have "\<forall>k<i. ?pre ! k =
              (if joins c r (rects ! k) new then union_rect (rects ! k) new else rects ! k)"
    by simp
  moreover from assms(1) len have "length ?pre = i" by simp
  ultimately show ?thesis using ts res by (intro exI [of _ ?pre] exI [of _ ts]) simp
qed

lemma scan_pops:
  assumes "i < length rects"
    and "\<forall>k<i. \<not> new_in_old (rects ! k) new \<and> \<not> old_in_new (rects ! k) new"
    and "\<not> new_in_old (rects ! i) new" and "old_in_new (rects ! i) new"
  shows "\<exists>pre. length pre = i \<and>
           (\<forall>k<i. pre ! k =
              (if joins c r (rects ! k) new then union_rect (rects ! k) new else rects ! k)) \<and>
           intersects_loop c r rects 0 app new =
             pre @ intersects_loop c r (drop (Suc i) rects) 1 False new"
proof -
  from assms(1,2) obtain rects' app' where
    eq: "intersects_loop c r rects 0 app new = intersects_loop c r rects' i app' new" and
    len: "length rects' = length rects" and
    nth: "\<forall>k<length rects. rects' ! k =
            (if k < i \<and> joins c r (rects ! k) new then union_rect (rects ! k) new else rects ! k)"
    using intersects_loop_reach [of i rects new c r app] by force
  from nth assms(1) have same: "rects' ! i = rects ! i" by simp
  let ?pre = "take i rects'"
  from len nth have d: "drop (Suc i) rects' = drop (Suc i) rects"
    by (intro nth_equalityI) simp_all
  from assms len same
  have step: "intersects_loop c r rects' i app' new =
        intersects_loop c r (pop rects' i) (i + 1) False new"
    by (subst intersects_loop.simps) simp
  have p: "pop rects' i = ?pre @ drop (Suc i) rects" by (simp add: pop_def d)
  from assms(1) len have lp: "length ?pre + 1 = i + 1" by simp
  have "intersects_loop c r (?pre @ drop (Suc i) rects) (length ?pre + 1) False new =
        ?pre @ intersects_loop c r (drop (Suc i) rects) 1 False new"
    by (rule intersects_loop_shift)
  with step p lp eq have res: "intersects_loop c r rects 0 app new =
        ?pre @ intersects_loop c r (drop (Suc i) rects) 1 False new"
    by simp
  from assms(1) len nth have "\<forall>k<i. ?pre ! k =
              (if joins c r (rects ! k) new then union_rect (rects ! k) new else rects ! k)"
    by simp
  moreover from assms(1) len have "length ?pre = i" by simp
  ultimately show ?thesis using res by (intro exI [of _ ?pre]) simp
qed

lemma no_append_from_second:
  "\<exists>ts. list_all2 (scan_leaves c r new) xs ts \<and> intersects_loop c r xs 1 False new = concat ts"
proof -
  from intersects_loop_no_append [of False new c r 1 xs] obtain ts where
    ts: "list_all2 (scan_leaves c r new) (drop 1 xs) ts"
        "intersects_loop c r xs 1 False new = take 1 xs @ concat ts"
    by auto
  have "list_all2 (scan_leaves c r new) (take 1 xs @ drop 1 xs) (map (\<lambda>old. [old]) (take 1 xs) @ ts)"
    using ts(1) list_all2_kept [of _ "take 1 xs"] by (intro list_all2_appendI) simp_all
  then have "list_all2 (scan_leaves c r new) xs (map (\<lambda>old. [old]) (take 1 xs) @ ts)" by simp
  moreover have "intersects_loop c r xs 1 False new = concat (map (\<lambda>old. [old]) (take 1 xs) @ ts)"
    using ts(2) by (simp add: concat_kept)
  ultimately show ?thesis by blast
qed

lemma left_length:
  "list_all2 (scan_leaves c r new) xs ts \<Longrightarrow> length (concat ts) \<le> length xs"
  by (induction xs ts rule: list_all2_induct) auto

section \<open>Properties of \<^verbatim>\<open>analyse\<close>\<close>

lemma has_movement_eq:
  "has_movement self a =
     map (map (\<lambda>b. int8 (int8 \<bar>blk_x b\<bar> + int8 \<bar>blk_y b\<bar>) > vmin self \<and>
                    int8 (int8 \<bar>blk_x b\<bar> + int8 \<bar>blk_y b\<bar>) < vmax self)) a"
  by (simp add: has_movement_def np_logical_and_def np_greater_def np_less_def np_add_def np_abs_def
      np_field_def map2_map_map Let_def)

lemma scan_rect_points:
  "scan_rect np_var np_mean self a acc r = Inr acc' \<Longrightarrow> fst acc' = fst acc @ appended np_var np_mean self a r"
  by (cases acc; cases r)
     (auto simp: appended_def Let_def split: if_splits sum.splits)

lemma removeIntersections_loop_fields:
  "maxArea s = maxArea s' \<Longrightarrow> rows s = rows s' \<Longrightarrow> cols s = cols s' \<Longrightarrow>
   removeIntersections_loop s rects cs = removeIntersections_loop s' rects cs"
proof (induction cs arbitrary: rects)
  case Nil
  show ?case by simp
next
  case (Cons c cs)
  obtain x y w h where c: "c = (x, y, w, h)" by (cases c)
  from Cons.prems have i: "intersects s rects (x, y, w, h) = intersects s' rects (x, y, w, h)"
    by (simp add: intersects_def)
  show ?case
  proof (cases "w * h > maxArea s")
    case True
    with Cons.prems have "w * h > maxArea s'" by simp
    with True Cons.IH [OF Cons.prems] show ?thesis by (simp add: c)
  next
    case False
    with Cons.prems have "\<not> w * h > maxArea s'" by simp
    with False Cons.IH [OF Cons.prems] i show ?thesis by (simp add: c)
  qed
qed


lemma removeIntersections_fields:
  "maxArea s = maxArea s' \<Longrightarrow> rows s = rows s' \<Longrightarrow> cols s = cols s' \<Longrightarrow>
   removeIntersections s cs = removeIntersections s' cs"
  unfolding removeIntersections_def by (rule removeIntersections_loop_fields)

lemma has_movement_fields:
  "vmin s = vmin s' \<Longrightarrow> vmax s = vmax s' \<Longrightarrow> has_movement s a = has_movement s' a"
  by (simp add: has_movement_eq)

lemma debug_out_fields:
  "debug_out openable s a = Inr s' \<Longrightarrow>
   \<exists>fo. s' = s\<lparr>fobj := fo\<rparr>"
  by (auto simp: debug_out_def split: option.splits if_splits)

lemma appended_fields:
  "maxArea s = maxArea s' \<Longrightarrow> sadThreshold s = sadThreshold s' \<Longrightarrow> appended np_var np_mean s a r = appended np_var np_mean s' a r"
  by (cases r) (simp add: appended_def)

lemma scan_rects_points:
  "scan_rects np_var np_mean self a acc rs = Inr acc' \<Longrightarrow> fst acc' = fst acc @ concat (map (appended np_var np_mean self a) rs)"
proof (induction rs arbitrary: acc)
  case Nil
  then show ?case by simp
next
  case (Cons r rs)
  then obtain acc1 where 1: "scan_rect np_var np_mean self a acc r = Inr acc1" and 2: "scan_rects np_var np_mean self a acc1 rs = Inr acc'"
    by (auto split: sum.splits)
  from Cons.IH [OF 2] scan_rect_points [OF 1] show ?case by simp
qed

lemma analyse_scan:
  assumes "snd (analyse fc np_var np_mean openable self index a) = Update_tracks f pts"
  shows "\<exists>s2 acc. maxArea s2 = maxArea self \<and> sadThreshold s2 = sadThreshold self \<and>
           scan_rects np_var np_mean s2 a ([], 0, 0, 0) (removeIntersections self (fc (has_movement self a))) = Inr acc \<and>
           pts = fst acc \<and> f = index \<and> started self \<and>
           \<not> of_int (count_nonzero (has_movement self a)) > maxMovements self"
proof -
  let ?s1 = "self\<lparr>frame := index, processed_frames := processed_frames self + 1\<rparr>"
  from assms obtain s2 where d: "(if debug ?s1 then debug_out openable ?s1 a else Inr ?s1) = Inr s2"
    by (auto simp: analyse_def Let_def split: sum.splits)
  then obtain fo where s2: "s2 = ?s1\<lparr>fobj := fo\<rparr>"
  proof (cases "debug ?s1")
    case True
    with d that show ?thesis by (auto dest: debug_out_fields)
  next
    case False
    with d that [of "fobj self"] show ?thesis by auto
  qed
  have hm: "has_movement s2 a = has_movement self a"
    by (simp add: s2 has_movement_eq)
  have ri: "removeIntersections s2 cs = removeIntersections self cs" for cs
    by (rule removeIntersections_fields) (simp_all add: s2)
  have st: "started s2 = started self" "maxMovements s2 = maxMovements self" "frame s2 = index"
    "maxArea s2 = maxArea self" "sadThreshold s2 = sadThreshold self"
    by (simp_all add: s2)
  from assms have out: "snd (case Inr s2 :: error + analyser of Inl e \<Rightarrow> (?s1, Raised e)
      | Inr self \<Rightarrow>
          if \<not> started self then
            (self\<lparr>maxMovements := of_int (rows self * cols self) / 8, started := True\<rparr>,
             Setup_sizes (rows self) (cols self - 1))
          else
            (let moving_elements = count_nonzero (has_movement self a) in
             if of_int moving_elements > maxMovements self then (self, Returned)
             else
               (let mask = has_movement self a;
                    contours = fc mask;
                    rects = removeIntersections self contours
                in case scan_rects np_var np_mean self a ([], 0, 0, 0) rects of
                     Inl e \<Rightarrow> (self, Raised e)
                   | Inr (new_points, rejects, num_small, num_large) \<Rightarrow>
                       (self, Update_tracks (frame self) new_points)))) = Update_tracks f pts"
    using d by (simp add: analyse_def)
  then have started: "started s2"
    by (cases "started s2") simp_all
  with out have cap: "\<not> of_int (count_nonzero (has_movement s2 a)) > maxMovements s2"
    by (cases "of_int (count_nonzero (has_movement s2 a)) > maxMovements s2") (simp_all add: Let_def)
  with out started obtain acc where
    sc: "scan_rects np_var np_mean s2 a ([], 0, 0, 0) (removeIntersections s2 (fc (has_movement s2 a))) = Inr acc"
    and res: "f = frame s2" "pts = fst acc"
    by (cases "scan_rects np_var np_mean s2 a ([], 0, 0, 0) (removeIntersections s2 (fc (has_movement s2 a)))")
       (auto simp: Let_def split: prod.splits)
  from sc res started cap show ?thesis
    by (intro exI [of _ s2] exI [of _ acc]) (simp add: hm ri st)
qed

lemma analyse_points:
  assumes "snd (analyse fc np_var np_mean openable self index a) = Update_tracks f pts"
  shows "f = index \<and> started self \<and>
         \<not> of_int (count_nonzero (has_movement self a)) > maxMovements self \<and>
         pts = concat (map (appended np_var np_mean self a) (removeIntersections self (fc (has_movement self a))))"
proof -
  from analyse_scan [OF assms] obtain s2 acc where
    f: "maxArea s2 = maxArea self" "sadThreshold s2 = sadThreshold self" and
    sc: "scan_rects np_var np_mean s2 a ([], 0, 0, 0) (removeIntersections self (fc (has_movement self a))) = Inr acc" and
    r: "pts = fst acc" "f = index" "started self"
       "\<not> of_int (count_nonzero (has_movement self a)) > maxMovements self"
    by blast
  have "appended np_var np_mean s2 a = appended np_var np_mean self a"
    by (rule ext, rule appended_fields) (simp_all add: f)
  with scan_rects_points [OF sc] r show ?thesis by simp
qed

lemma analyse_fst:
  "fst (analyse fc np_var np_mean openable self index a) =
     (let s1 = self\<lparr>frame := index, processed_frames := processed_frames self + 1\<rparr> in
      if debug self \<and> fobj self = None \<and> \<not> openable then s1
      else (let s2 = (if debug self then s1\<lparr>fobj := Some (case fobj self of None \<Rightarrow> [a] | Some written \<Rightarrow> written @ [a])\<rparr> else s1)
            in if started self then s2
               else s2\<lparr>maxMovements := of_int (rows self * cols self) / 8, started := True\<rparr>))"
  by (auto simp: analyse_def Let_def debug_out_def split: option.splits sum.splits prod.splits)

lemma step_invariant:
  assumes "rows s = r" "cols s = c" "started s \<longrightarrow> maxMovements s = of_int (r * c) / 8"
  shows "rows (step fc np_var np_mean s e) = r \<and> cols (step fc np_var np_mean s e) = c \<and>
         (started (step fc np_var np_mean s e) \<longrightarrow>
            maxMovements (step fc np_var np_mean s e) = of_int (r * c) / 8)"
  using assms
  by (cases e)
     (auto simp: analyse_fst Let_def set_debug_def set_vMax_def set_vMin_def set_maxArea_def
        set_minArea_def set_sadThreshold_def)

lemma run_invariant:
  assumes "\<not> started s0"
  shows "rows (run fc np_var np_mean s0 events) = rows s0 \<and>
         cols (run fc np_var np_mean s0 events) = cols s0 \<and>
         (started (run fc np_var np_mean s0 events) \<longrightarrow>
            maxMovements (run fc np_var np_mean s0 events) = of_int (rows s0 * cols s0) / 8)"
proof (induction events rule: rev_induct)
  case Nil
  from assms show ?case by (simp add: run_def)
next
  case (snoc e events)
  have "run fc np_var np_mean s0 (events @ [e]) =
        step fc np_var np_mean (run fc np_var np_mean s0 events) e"
    by (simp add: run_def)
  with snoc step_invariant [of "run fc np_var np_mean s0 events" "rows s0" "cols s0" fc np_var np_mean e] show ?case by simp
qed

lemma analyse_over_cap:
  assumes "started self" "of_int (count_nonzero (has_movement self a)) > maxMovements self"
  shows "snd (analyse fc np_var np_mean openable self index a) =
           (if debug self \<and> fobj self = None \<and> \<not> openable then Raised IOError else Returned)"
  using assms
  by (auto simp: analyse_def Let_def debug_out_def has_movement_eq split: option.splits)

lemma removeIntersections_loop_filter:
  "removeIntersections_loop self rects contours =
   removeIntersections_loop self rects (filter (\<lambda>(x, y, w, h). w * h \<le> maxArea self) contours)"
proof (induction contours arbitrary: rects)
  case Nil
  show ?case by simp
next
  case (Cons c contours)
  obtain x y w h where c: "c = (x, y, w, h)" by (cases c)
  show ?case
    using Cons.IH by (simp add: c)
qed

lemma appended_area:
  "((x, y, w, h), v) \<in> set (appended np_var np_mean self a r) \<Longrightarrow> w * h \<le> maxArea self"
  by (cases r) (auto simp: appended_def split: if_splits sum.splits)

lemma appended_rect: "(r', v) \<in> set (appended np_var np_mean self a r) \<Longrightarrow> r' = r"
  by (cases r) (auto simp: appended_def split: if_splits sum.splits)

lemma appended_multi:
  "\<not> (w < 2 \<and> h < 2) \<Longrightarrow>
   appended np_var np_mean self a (x0, y0, w, h) =
     (if w * h > maxArea self then []
      else if float_less (np_var (np_field blk_sad (window a y0 (y0 + h) x0 (x0 + w)))) (2 * sadThreshold self)
      then []
      else [((x0, y0, w, h), (np_mean (np_field blk_x (window a y0 (y0 + h) x0 (x0 + w))),
                   np_mean (np_field blk_y (window a y0 (y0 + h) x0 (x0 + w)))))])"
  by (auto simp: appended_def)

lemma appended_single:
  "w < 2 \<and> h < 2 \<Longrightarrow>
   appended np_var np_mean self a (x0, y0, w, h) =
     (if w * h > maxArea self then []
      else (case item a y0 x0 of
             Inl e \<Rightarrow> []
           | Inr c \<Rightarrow> [((x0, y0, w, h), (Val (of_int (blk_x c)), Val (of_int (blk_y c))))]))"
  by (auto simp: appended_def)

lemma in_concat_appended:
  "(r, v) \<in> set (concat (map (appended np_var np_mean self a) rs)) \<longleftrightarrow> r \<in> set rs \<and> (r, v) \<in> set (appended np_var np_mean self a r)"
  by (auto dest: appended_rect)

lemma scan_rect_item:
  "scan_rect np_var np_mean self a acc (x0, y0, w, h) = Inr acc' \<Longrightarrow> w < 2 \<and> h < 2 \<Longrightarrow> w * h \<le> maxArea self \<Longrightarrow>
   \<exists>c. item a y0 x0 = Inr c"
  by (cases acc) (auto simp: Let_def split: if_splits sum.splits)

lemma scan_rects_item:
  "scan_rects np_var np_mean self a acc rs = Inr acc' \<Longrightarrow> (x0, y0, w, h) \<in> set rs \<Longrightarrow>
   w < 2 \<and> h < 2 \<Longrightarrow> w * h \<le> maxArea self \<Longrightarrow> \<exists>c. item a y0 x0 = Inr c"
proof (induction rs arbitrary: acc)
  case Nil
  then show ?case by simp
next
  case (Cons r rs)
  from Cons.prems(1) obtain acc1 where
    1: "scan_rect np_var np_mean self a acc r = Inr acc1" and 2: "scan_rects np_var np_mean self a acc1 rs = Inr acc'"
    by (auto split: sum.splits)
  from Cons.prems(2) consider "r = (x0, y0, w, h)" | "(x0, y0, w, h) \<in> set rs" by auto
  then show ?case
  proof cases
    case 1: 1
    with \<open>scan_rect np_var np_mean self a acc r = Inr acc1\<close> Cons.prems(3,4) show ?thesis
      by (auto dest: scan_rect_item)
  next
    case 2: 2
    from Cons.IH [OF \<open>scan_rects np_var np_mean self a acc1 rs = Inr acc'\<close> 2 Cons.prems(3,4)] show ?thesis .
  qed
qed

text \<open>
  The magnitude is an int8 value: with \<^verbatim>\<open>vMax = 200\<close>, neither the block \<open>(100, 50)\<close>, whose
  magnitude wraps to \<open>-106\<close>, nor the block \<open>(-128, 0)\<close>, whose magnitude is \<open>-128\<close>, is in the
  mask.
\<close>

lemma magnitude_wraps_in_int8:
  "has_movement ((cam 2 8 60 40)\<lparr>vmax := 200\<rparr>)
     [row8 (blk 100 50 80) (blk (- 128) 0 80) (blk 3 0 80), row8 still still still]
     = [[False, False, True, False, False, False, False, False],
        [False, False, False, False, False, False, False, False]]"
  by (simp add: has_movement_eq int8_def)

section \<open>The claims\<close>

lemmas merger_eval = removeIntersections_def intersects_def intersects_loop.simps pop_def joins_def extend_def

lemmas analyse_eval = analyse_def has_movement_def np_add_def np_abs_def int8_def np_field_def np_greater_def
  np_less_def np_logical_and_def count_nonzero_def item_def np_index_def window_def np_slice_def
  slice_bound_def debug_out_def Let_def

text \<open>
  Claim C1 (the mask is true at a cell if and only if \<open>vMin < |vx|+|vy| < vMax\<close> and
  \<open>sad > sadThreshold\<close>; a grid with every \<open>sad\<close> at or below the threshold gives an empty
  mask and no region) does not hold of the code: the \<open>sad\<close> comparison is passed to
  \<^verbatim>\<open>np.logical_and\<close> as its output array and takes no part in the mask (lemma
  \<open>has_movement_eq\<close>). On a 2 by 8 grid whose only moving block has \<open>vx = 3\<close>, \<open>vy = 0\<close>,
  \<open>sad = 0\<close>, with \<open>sadThreshold = 60\<close>, the mask is true at that block and, with the
  block's bounding rectangle as the only contour, the frame emits it as a region.
\<close>

theorem mask_true_despite_low_sad:
  "has_movement (cam 2 8 60 40) [row8 (blk 3 0 0) still still, row8 still still still]
     = [[True, False, False, False, False, False, False, False],
        [False, False, False, False, False, False, False, False]] \<and>
   snd (analyse (\<lambda>mask. [(0, 0, 1, 1)]) exact_var exact_mean True (cam 2 8 60 40) 7
          [row8 (blk 3 0 0) still still, row8 still still still])
     = Update_tracks 7 [((0, 0, 1, 1), (Val 3, Val 0))]"
  by (simp add: analyse_eval merger_eval power2_eq_square)

text \<open>
  Claim C2 as stated fails: with three moving blocks on a 2 by 8 grid (cap 2) the method
  returns without calling the tracker; no region list, not even an empty one, is handed
  over.
\<close>

theorem over_cap_frame_makes_no_tracker_call:
  "count_nonzero (has_movement (cam 2 8 60 40)
      [row8 (blk 3 0 80) (blk 4 1 80) (blk 3 0 80), row8 still still still]) = 3 \<and>
   maxMovements (cam 2 8 60 40) = 2 \<and>
   snd (analyse (\<lambda>mask. [(0, 0, 3, 1)]) exact_var exact_mean True (cam 2 8 60 40) 7
          [row8 (blk 3 0 80) (blk 4 1 80) (blk 3 0 80), row8 still still still]) = Returned \<and>
   snd (analyse (\<lambda>mask. [(0, 0, 3, 1)]) exact_var exact_mean True (cam 2 8 60 40) 7
          [row8 (blk 3 0 80) (blk 4 1 80) (blk 3 0 80), row8 still still still]) \<noteq> Update_tracks 7 []"
  by (simp add: analyse_eval merger_eval power2_eq_square)

text \<open>
  Claim C2, amended: take an analyser that was not yet calibrated, let it go through any
  sequence of frames and setter calls, and let it be calibrated by then. If in the next
  frame the number of mask-true cells exceeds \<open>rows * cols / 8\<close>, then \<^verbatim>\<open>analyse\<close> returns
  before any further stage and makes no call to the tracker (or, when debugging is on and
  the debug file cannot be opened, leaves with that exception): no region is delivered.
\<close>

theorem over_cap_frame_returns:
  assumes "\<not> started s0" and "self = run fc np_var np_mean s0 events" and "started self"
    and "of_int (count_nonzero (has_movement self a)) > (of_int (rows s0 * cols s0) / 8 :: rat)"
  shows "snd (analyse fc np_var np_mean openable self index a) =
           (if debug self \<and> fobj self = None \<and> \<not> openable then Raised IOError else Returned)"
proof -
  from run_invariant [OF assms(1), of fc np_var np_mean events] assms(2,3)
  have "maxMovements self = of_int (rows s0 * cols s0) / 8" by simp
  with assms(3,4) show ?thesis by (intro analyse_over_cap) simp_all
qed

text \<open>
  Claim C2, witness: a first frame calibrates a 2 by 8 analyser, \<^verbatim>\<open>set_vMin(1)\<close> follows, and
  the next frame has three moving blocks.
\<close>

theorem over_cap_frame_returns_witness:
  "\<not> started ((cam 2 8 60 40)\<lparr>started := False, maxMovements := 100\<rparr>) \<and>
   started (run (\<lambda>mask. []) exact_var exact_mean ((cam 2 8 60 40)\<lparr>started := False, maxMovements := 100\<rparr>)
              [Frame True 1 [row8 still still still, row8 still still still], Set_vMin 1]) \<and>
   snd (analyse (\<lambda>mask. []) exact_var exact_mean True
          (run (\<lambda>mask. []) exact_var exact_mean ((cam 2 8 60 40)\<lparr>started := False, maxMovements := 100\<rparr>)
              [Frame True 1 [row8 still still still, row8 still still still], Set_vMin 1])
          2 [row8 (blk 3 0 80) (blk 4 1 80) (blk 3 0 80), row8 still still still]) = Returned"
  using over_cap_frame_returns [of "(cam 2 8 60 40)\<lparr>started := False, maxMovements := 100\<rparr>"
      "run (\<lambda>mask. []) exact_var exact_mean ((cam 2 8 60 40)\<lparr>started := False, maxMovements := 100\<rparr>)
              [Frame True 1 [row8 still still still, row8 still still still], Set_vMin 1]"
      "\<lambda>mask. []" exact_var exact_mean "[Frame True 1 [row8 still still still, row8 still still still], Set_vMin 1]"
      "[row8 (blk 3 0 80) (blk 4 1 80) (blk 3 0 80), row8 still still still]" True 2]
  by (simp add: run_def analyse_fst set_vMin_def conf_store_def has_movement_eq count_nonzero_def int8_def)

text \<open>
  Claim C3: whenever a frame hands a region list to the tracker, every region in it has
  an area \<open>w * h\<close> of at most \<^verbatim>\<open>maxArea\<close> (the check before the vectors are reduced covers
  merged unions too); and \<^verbatim>\<open>removeIntersections\<close> gives the same result with the contours
  whose bounding rectangle exceeds \<^verbatim>\<open>maxArea\<close> taken out beforehand: they never reach the
  merger.
\<close>

theorem emitted_area_within_maxArea:
  assumes "snd (analyse fc np_var np_mean openable self index a) = Update_tracks f pts"
  shows "(((x, y, w, h), v) \<in> set pts \<longrightarrow> w * h \<le> maxArea self) \<and>
         removeIntersections self contours =
           removeIntersections self (filter (\<lambda>(x, y, w, h). w * h \<le> maxArea self) contours)"
proof
  from analyse_points [OF assms]
  have "pts = concat (map (appended np_var np_mean self a) (removeIntersections self (fc (has_movement self a))))"
    by simp
  then show "((x, y, w, h), v) \<in> set pts \<longrightarrow> w * h \<le> maxArea self"
    by (auto dest: appended_area)
  show "removeIntersections self contours =
           removeIntersections self (filter (\<lambda>(x, y, w, h). w * h \<le> maxArea self) contours)"
    unfolding removeIntersections_def by (rule removeIntersections_loop_filter)
qed

text \<open>
  Claim C3, witness: with \<^verbatim>\<open>maxArea = 1\<close>, a contour of two blocks is dropped and a single
  block two rows below is emitted.
\<close>

theorem emitted_area_within_maxArea_witness:
  "snd (analyse (\<lambda>mask. [(1, 0, 2, 1), (0, 2, 1, 1)]) exact_var exact_mean True (cam 3 8 60 1) 7
          [row8 still (blk 3 0 0) (blk 3 0 0), row8 still still still, row8 (blk 3 0 0) still still])
     = Update_tracks 7 [((0, 2, 1, 1), (Val 3, Val 0))] \<and>
   (1 :: int) * 1 \<le> maxArea (cam 3 8 60 1) \<and>
   removeIntersections (cam 3 8 60 1) [(1, 0, 2, 1), (0, 2, 1, 1)]
     = removeIntersections (cam 3 8 60 1) [(0, 2, 1, 1)]"
  using emitted_area_within_maxArea [of "\<lambda>mask. [(1, 0, 2, 1), (0, 2, 1, 1)]" exact_var exact_mean True "cam 3 8 60 1" 7
      "[row8 still (blk 3 0 0) (blk 3 0 0), row8 still still still, row8 (blk 3 0 0) still still]" 7
      "[((0, 2, 1, 1), (Val 3, Val 0))]" 0 2 1 1 "(Val 3, Val 0)" "[(1, 0, 2, 1), (0, 2, 1, 1)]"]
  by (simp add: analyse_eval merger_eval)

text \<open>
  Claim C4 as stated fails. First instance: the contours \<open>(0,28,1,2)\<close>, \<open>(0,10,1,1)\<close>,
  \<open>(0,12,1,11)\<close> leave the list \<open>[(0,28,1,2), (0,10,1,13)]\<close>; the incoming \<open>(0,29,1,1)\<close>,
  extended and clamped to the 30 rows, overlaps \<open>(0,10,1,13)\<close> on both axes, but it is
  contained in the first entry, so the scan returns at once and the pair is not merged.
  Second instance: the extended \<open>(3,3,5,5)\<close> overlaps \<open>(5,4,1,1)\<close>, which lies strictly
  inside it; the entry is popped, nothing is appended, and no union entry exists.
\<close>

theorem overlapping_pair_left_unmerged:
  "removeIntersections (cam 30 40 60 40) [(0, 28, 1, 2), (0, 10, 1, 1), (0, 12, 1, 11)]
     = [(0, 28, 1, 2), (0, 10, 1, 13)] \<and>
   joins 40 30 (0, 10, 1, 13) (0, 29, 1, 1) \<and>
   intersects (cam 30 40 60 40) [(0, 28, 1, 2), (0, 10, 1, 13)] (0, 29, 1, 1)
     = [(0, 28, 1, 2), (0, 10, 1, 13)] \<and>
   joins 40 30 (5, 4, 1, 1) (3, 3, 5, 5) \<and>
   intersects (cam 30 40 60 40) [(5, 4, 1, 1)] (3, 3, 5, 5) = []"
  by (simp add: merger_eval)

text \<open>
  Claim C4, amended: let \<open>old = rects ! i\<close> be an entry that the incoming rectangle,
  extended by 3 and clamped to the grid, overlaps on both axes (\<open>joins\<close>). If neither
  \<open>old\<close> nor any entry before it contains the incoming rectangle or lies strictly inside
  it (so the scan arrives at \<open>old\<close> and tests its proximity), then the returned list
  holds, at the place of \<open>old\<close>, the union bounding box of the two unexpanded rectangles;
  each entry before it is its union with the incoming rectangle if it joined it and is
  unchanged otherwise; and the incoming rectangle is not appended: what follows the union
  is, entry by entry, what the scan leaves in place of the entries after \<open>old\<close> (the entry
  itself, nothing, or its union with the incoming rectangle, see \<open>scan_leaves\<close>), so the
  list has not grown. If instead the scan arrives at an entry before \<open>old\<close> that contains
  the incoming rectangle, the list keeps its length and \<open>old\<close> stays as it was: the pair is
  not merged.
\<close>

theorem reached_entry_joined_into_union:
  assumes "i < length rects" and "joins (cols self) (rows self) (rects ! i) new"
  shows "((\<forall>k\<le>i. \<not> new_in_old (rects ! k) new \<and> \<not> old_in_new (rects ! k) new) \<longrightarrow>
            i < length (intersects self rects new) \<and>
            intersects self rects new ! i = union_rect (rects ! i) new \<and>
            length (intersects self rects new) \<le> length rects \<and>
            (\<forall>k<i. intersects self rects new ! k =
               (if joins (cols self) (rows self) (rects ! k) new
                then union_rect (rects ! k) new else rects ! k)) \<and>
            (\<exists>ts. list_all2 (scan_leaves (cols self) (rows self) new) (drop (Suc i) rects) ts \<and>
                  drop (Suc i) (intersects self rects new) = concat ts)) \<and>
         (\<forall>k<i. (\<forall>m<k. \<not> new_in_old (rects ! m) new \<and> \<not> old_in_new (rects ! m) new) \<and>
                 new_in_old (rects ! k) new \<longrightarrow>
            length (intersects self rects new) = length rects \<and>
            intersects self rects new ! i = rects ! i)"
proof -
  let ?res = "intersects self rects new"
  have A: "i < length ?res \<and> ?res ! i = union_rect (rects ! i) new \<and> length ?res \<le> length rects \<and>
            (\<forall>k<i. ?res ! k =
               (if joins (cols self) (rows self) (rects ! k) new
                then union_rect (rects ! k) new else rects ! k)) \<and>
            (\<exists>ts. list_all2 (scan_leaves (cols self) (rows self) new) (drop (Suc i) rects) ts \<and>
                  drop (Suc i) ?res = concat ts)"
    if reach: "\<forall>k\<le>i. \<not> new_in_old (rects ! k) new \<and> \<not> old_in_new (rects ! k) new"
  proof -
    from scan_joins [OF assms(1) reach assms(2)] obtain pre ts where
      pre: "length pre = i"
        "\<forall>k<i. pre ! k =
           (if joins (cols self) (rows self) (rects ! k) new then union_rect (rects ! k) new else rects ! k)" and
      ts: "list_all2 (scan_leaves (cols self) (rows self) new) (drop (Suc i) rects) ts" and
      res: "?res = pre @ union_rect (rects ! i) new # concat ts"
      unfolding intersects_def by blast
    from res pre(1) have 1: "i < length ?res" by simp
    from res pre(1) have 2: "?res ! i = union_rect (rects ! i) new"
      by (simp add: nth_append)
    from left_length [OF ts] assms(1) res pre(1)
    have 3: "length ?res \<le> length rects" by simp
    from res pre have 4: "\<forall>k<i. ?res ! k =
               (if joins (cols self) (rows self) (rects ! k) new
                then union_rect (rects ! k) new else rects ! k)"
      by (simp add: nth_append)
    from res pre(1) have "drop (Suc i) ?res = concat ts" by simp
    with ts have 5: "\<exists>ts. list_all2 (scan_leaves (cols self) (rows self) new) (drop (Suc i) rects) ts \<and>
                  drop (Suc i) ?res = concat ts"
      by blast
    from 1 2 3 4 5 show ?thesis by (intro conjI)
  qed
  have B: "length ?res = length rects \<and> ?res ! i = rects ! i"
    if k: "k < i"
      and h: "(\<forall>m<k. \<not> new_in_old (rects ! m) new \<and> \<not> old_in_new (rects ! m) new) \<and>
                 new_in_old (rects ! k) new" for k
  proof -
    from k assms(1) have kl: "k < length rects" by simp
    from h have h1: "\<forall>m<k. \<not> new_in_old (rects ! m) new \<and> \<not> old_in_new (rects ! m) new"
      and h2: "new_in_old (rects ! k) new" by blast+
    from scan_stops [OF kl h1 h2]
    have s: "length ?res = length rects \<and>
         (\<forall>m<length rects. ?res ! m =
            (if m < k \<and> joins (cols self) (rows self) (rects ! m) new
             then union_rect (rects ! m) new else rects ! m))"
      unfolding intersects_def by blast
    with assms(1) k show ?thesis by simp
  qed
  from A B show ?thesis by blast
qed

text \<open>
  Claim C4, witness: \<open>(3,3,5,5)\<close> arriving at \<open>[(0,3,1,1), (5,4,1,1)]\<close> joins the first entry
  (the second, strictly inside it, is removed and nothing is appended); and \<open>(0,29,1,1)\<close>
  arriving at \<open>[(0,28,1,2), (0,10,1,13)]\<close> is contained in the first entry, so the second,
  which it joins, stays as it was.
\<close>

theorem reached_entry_joined_into_union_witness:
  "joins 40 30 (0, 3, 1, 1) (3, 3, 5, 5) \<and>
   \<not> new_in_old (0, 3, 1, 1) (3, 3, 5, 5) \<and> \<not> old_in_new (0, 3, 1, 1) (3, 3, 5, 5) \<and>
   union_rect (0, 3, 1, 1) (3, 3, 5, 5) = (0, 3, 8, 5) \<and>
   intersects (cam 30 40 60 40) [(0, 3, 1, 1), (5, 4, 1, 1)] (3, 3, 5, 5) = [(0, 3, 8, 5)] \<and>
   joins 40 30 (0, 10, 1, 13) (0, 29, 1, 1) \<and> new_in_old (0, 28, 1, 2) (0, 29, 1, 1) \<and>
   intersects (cam 30 40 60 40) [(0, 28, 1, 2), (0, 10, 1, 13)] (0, 29, 1, 1)
     = [(0, 28, 1, 2), (0, 10, 1, 13)]"
  using reached_entry_joined_into_union [of 0 "[(0, 3, 1, 1), (5, 4, 1, 1)]" "cam 30 40 60 40" "(3, 3, 5, 5)"]
    reached_entry_joined_into_union [of 1 "[(0, 28, 1, 2), (0, 10, 1, 13)]" "cam 30 40 60 40" "(0, 29, 1, 1)"]
  by (simp add: merger_eval)

text \<open>
  Claim C5 as stated fails. The incoming \<open>(0,29,1,1)\<close> is contained in the accumulated
  entry \<open>(0,28,1,2)\<close>, yet the list comes back changed: the entry scanned before it was
  replaced by its union with the incoming rectangle. And \<open>(10,5,1,1)\<close> lies strictly
  inside the incoming \<open>(4,4,8,2)\<close>, yet it stays in the list: it is never examined.
  Both lists are ones \<^verbatim>\<open>removeIntersections\<close> builds.
\<close>

theorem containment_rules_off_the_scan_path:
  "removeIntersections (cam 30 40 60 40) [(0, 10, 1, 1), (0, 28, 1, 2), (0, 12, 1, 11)]
     = [(0, 10, 1, 13), (0, 28, 1, 2)] \<and>
   new_in_old (0, 28, 1, 2) (0, 29, 1, 1) \<and>
   intersects (cam 30 40 60 40) [(0, 10, 1, 13), (0, 28, 1, 2)] (0, 29, 1, 1)
     = [(0, 10, 1, 20), (0, 28, 1, 2)] \<and>
   removeIntersections (cam 30 40 60 40) [(5, 5, 1, 1), (10, 5, 1, 1)] = [(5, 5, 1, 1), (10, 5, 1, 1)] \<and>
   old_in_new (10, 5, 1, 1) (4, 4, 8, 2) \<and>
   intersects (cam 30 40 60 40) [(5, 5, 1, 1), (10, 5, 1, 1)] (4, 4, 8, 2) = [(10, 5, 1, 1)]"
  by (simp add: merger_eval)

text \<open>
  Claim C5, amended: let \<open>old = rects ! i\<close> be an entry the scan arrives at (no entry
  before it contains the incoming rectangle or lies strictly inside it). If the incoming
  rectangle is contained in \<open>old\<close>, the scan stops there and the incoming rectangle is
  discarded: the list keeps its length, \<open>old\<close> and the entries after it are as they were,
  and each entry before it is its union with the incoming rectangle exactly when it
  joined it (so the list is unchanged when \<open>old\<close> is the first entry). If instead \<open>old\<close>
  passes the code's test \<^verbatim>\<open>xo > xn and xo+wo <= xn+wn and yo > yn and yo+ho <= yn+hn\<close>, then
  \<open>old\<close> is removed and the scan goes on over the entries after it, without the incoming
  rectangle being put in its place: the entries before \<open>old\<close> are as in the first case,
  and the rest of the returned list is what the scan makes of the entries after \<open>old\<close>.
  Two things are left open here: whether that scan examines the first of these entries
  or starts at the second, and whether the incoming rectangle is appended at its end;
  accordingly the rest is, entry by entry, what the scan leaves in place of the entries
  after \<open>old\<close> (\<open>scan_leaves\<close>), with or without the incoming rectangle after them.
\<close>

theorem containment_at_reached_entry:
  assumes "i < length rects"
    and "\<forall>k<i. \<not> new_in_old (rects ! k) new \<and> \<not> old_in_new (rects ! k) new"
  shows "(new_in_old (rects ! i) new \<longrightarrow>
            length (intersects self rects new) = length rects \<and>
            (\<forall>k<length rects. intersects self rects new ! k =
               (if k < i \<and> joins (cols self) (rows self) (rects ! k) new
                then union_rect (rects ! k) new else rects ! k))) \<and>
         (\<not> new_in_old (rects ! i) new \<and> old_in_new (rects ! i) new \<longrightarrow>
            i \<le> length (intersects self rects new) \<and>
            (\<forall>k<i. intersects self rects new ! k =
               (if joins (cols self) (rows self) (rects ! k) new
                then union_rect (rects ! k) new else rects ! k)) \<and>
            (\<exists>j\<le>1. \<exists>app. drop i (intersects self rects new) =
               intersects_loop (cols self) (rows self) (drop (Suc i) rects) j app new) \<and>
            (\<exists>ts. list_all2 (scan_leaves (cols self) (rows self) new) (drop (Suc i) rects) ts \<and>
               (drop i (intersects self rects new) = concat ts \<or>
                drop i (intersects self rects new) = concat ts @ [new])))"
proof -
  let ?res = "intersects self rects new"
  have A: "length ?res = length rects \<and>
            (\<forall>k<length rects. ?res ! k =
               (if k < i \<and> joins (cols self) (rows self) (rects ! k) new
                then union_rect (rects ! k) new else rects ! k))"
    if nin: "new_in_old (rects ! i) new"
    using scan_stops [OF assms nin] unfolding intersects_def by blast
  have B: "i \<le> length ?res \<and>
            (\<forall>k<i. ?res ! k =
               (if joins (cols self) (rows self) (rects ! k) new
                then union_rect (rects ! k) new else rects ! k)) \<and>
            (\<exists>j\<le>1. \<exists>app. drop i ?res =
               intersects_loop (cols self) (rows self) (drop (Suc i) rects) j app new) \<and>
            (\<exists>ts. list_all2 (scan_leaves (cols self) (rows self) new) (drop (Suc i) rects) ts \<and>
               (drop i ?res = concat ts \<or> drop i ?res = concat ts @ [new]))"
    if h: "\<not> new_in_old (rects ! i) new \<and> old_in_new (rects ! i) new"
  proof -
    from h have h1: "\<not> new_in_old (rects ! i) new" and h2: "old_in_new (rects ! i) new" by blast+
    from scan_pops [OF assms h1 h2] obtain pre where
      pre: "length pre = i"
        "\<forall>k<i. pre ! k =
           (if joins (cols self) (rows self) (rects ! k) new then union_rect (rects ! k) new else rects ! k)" and
      res: "?res = pre @ intersects_loop (cols self) (rows self) (drop (Suc i) rects) 1 False new"
      unfolding intersects_def by blast
    from res pre(1) have 1: "i \<le> length ?res" by simp
    from res pre have 2: "\<forall>k<i. ?res ! k =
               (if joins (cols self) (rows self) (rects ! k) new
                then union_rect (rects ! k) new else rects ! k)"
      by (simp add: nth_append)
    from res pre(1) have d: "drop i ?res =
        intersects_loop (cols self) (rows self) (drop (Suc i) rects) 1 False new"
      by simp
    then have 3: "\<exists>j\<le>1. \<exists>app. drop i ?res =
               intersects_loop (cols self) (rows self) (drop (Suc i) rects) j app new"
      by (intro exI [of _ "1::nat"] conjI exI [of _ False]) simp_all
    from no_append_from_second [where c = "cols self" and r = "rows self" and new = new
        and xs = "drop (Suc i) rects"] d
    have 4: "\<exists>ts. list_all2 (scan_leaves (cols self) (rows self) new) (drop (Suc i) rects) ts \<and>
               (drop i ?res = concat ts \<or> drop i ?res = concat ts @ [new])"
      by auto
    from 1 2 3 4 show ?thesis by (intro conjI)
  qed
  from A B show ?thesis by blast
qed

text \<open>
  Claim C5, witness: \<open>(0,29,1,1)\<close> contained in the first entry of a list, which comes
  back unchanged; and \<open>(3,3,5,5)\<close> arriving at \<open>[(5,4,1,1), (20,20,1,1), (9,4,1,1)]\<close>: the
  first entry is removed, the scan goes on and joins the last one.
\<close>

theorem containment_at_reached_entry_witness:
  "new_in_old (0, 28, 1, 2) (0, 29, 1, 1) \<and>
   intersects (cam 30 40 60 40) [(0, 28, 1, 2), (0, 10, 1, 13)] (0, 29, 1, 1)
     = [(0, 28, 1, 2), (0, 10, 1, 13)] \<and>
   old_in_new (5, 4, 1, 1) (3, 3, 5, 5) \<and> \<not> new_in_old (5, 4, 1, 1) (3, 3, 5, 5) \<and>
   joins 40 30 (9, 4, 1, 1) (3, 3, 5, 5) \<and>
   intersects (cam 30 40 60 40) [(5, 4, 1, 1), (20, 20, 1, 1), (9, 4, 1, 1)] (3, 3, 5, 5)
     = [(20, 20, 1, 1), (3, 3, 7, 5)]"
  using containment_at_reached_entry [of 0 "[(0, 28, 1, 2), (0, 10, 1, 13)]" "(0, 29, 1, 1)" "cam 30 40 60 40"]
        containment_at_reached_entry [of 0 "[(5, 4, 1, 1), (20, 20, 1, 1), (9, 4, 1, 1)]" "(3, 3, 5, 5)" "cam 30 40 60 40"]
  by (simp add: merger_eval)

text \<open>
  Claim C6 as stated fails. With \<^verbatim>\<open>sadThreshold = 0\<close> (a value the setter accepts), a
  rectangle of two blocks with the same \<open>sad = 5\<close> has variance 0, which is not below
  \<open>2 * 0\<close>: the region is emitted although its variance is zero and its mean \<open>sad\<close> exceeds
  the threshold. And with \<^verbatim>\<open>maxArea = 2\<close>, two single blocks merge into \<open>(0,0,3,1)\<close>, whose
  variance 1800 is not below \<open>2 * 60\<close>, yet no region is emitted: the merged rectangle fails
  the area check that comes first.
\<close>

theorem multi_cell_claim_fails:
  "exact_var (np_field blk_sad (window [row8 (blk 3 0 5) (blk 4 1 5) still, row8 still still still] 0 1 0 2)) = Val 0 \<and>
   snd (analyse (\<lambda>mask. [(0, 0, 2, 1)]) exact_var exact_mean True (cam 2 8 0 40) 7
          [row8 (blk 3 0 5) (blk 4 1 5) still, row8 still still still])
     = Update_tracks 7 [((0, 0, 2, 1), (Val (7 / 2), Val (1 / 2)))] \<and>
   removeIntersections (cam 2 8 60 2) [(0, 0, 1, 1), (2, 0, 1, 1)] = [(0, 0, 3, 1)] \<and>
   \<not> float_less (exact_var (np_field blk_sad
        (window [row8 (blk 3 0 0) still (blk 3 0 90), row8 still still still] 0 1 0 3))) (2 * 60) \<and>
   snd (analyse (\<lambda>mask. [(0, 0, 1, 1), (2, 0, 1, 1)]) exact_var exact_mean True (cam 2 8 60 2) 7
          [row8 (blk 3 0 0) still (blk 3 0 90), row8 still still still])
     = Update_tracks 7 []"
  by (simp add: analyse_eval merger_eval power2_eq_square)

text \<open>
  Claim C6, amended: let a frame hand the list \<open>pts\<close> to the tracker, and let
  \<open>(x0,y0,w,h)\<close> be a rectangle with \<open>w \<ge> 2\<close> or \<open>h \<ge> 2\<close> whose slice of the array is \<open>cs\<close>; the variance
  and the means are the float64 values numpy computes (\<open>np_var\<close>, \<open>np_mean\<close>). If the
  variance of \<open>sad\<close> over \<open>cs\<close> is below \<open>2 * sadThreshold\<close>, no region with this rectangle
  is in \<open>pts\<close>. Every region of \<open>pts\<close> with this rectangle carries the means of \<open>vx\<close> and
  \<open>vy\<close> over \<open>cs\<close>. If the rectangle is one of the merged rectangles of the frame, its area
  is at most \<^verbatim>\<open>maxArea\<close> and the variance is not below \<open>2 * sadThreshold\<close>, that region is in
  \<open>pts\<close>. If the variance is zero and \<open>sadThreshold > 0\<close>, no region with this rectangle is
  in \<open>pts\<close>, whatever the mean \<open>sad\<close> is. And if the area of the rectangle exceeds
  \<^verbatim>\<open>maxArea\<close>, no region with this rectangle is in \<open>pts\<close>, whatever the variance is.
\<close>

theorem multi_cell_region:
  assumes "snd (analyse fc np_var np_mean openable self index a) = Update_tracks f pts"
    and "\<not> (w < 2 \<and> h < 2)"
    and "cs = window a y0 (y0 + h) x0 (x0 + w)"
  shows "(float_less (np_var (np_field blk_sad cs)) (2 * sadThreshold self) \<longrightarrow>
            (\<forall>v. ((x0, y0, w, h), v) \<notin> set pts)) \<and>
         (\<forall>v. ((x0, y0, w, h), v) \<in> set pts \<longrightarrow>
            v = (np_mean (np_field blk_x cs), np_mean (np_field blk_y cs))) \<and>
         ((x0, y0, w, h) \<in> set (removeIntersections self (fc (has_movement self a))) \<and>
          w * h \<le> maxArea self \<and>
          \<not> float_less (np_var (np_field blk_sad cs)) (2 * sadThreshold self) \<longrightarrow>
            ((x0, y0, w, h), (np_mean (np_field blk_x cs), np_mean (np_field blk_y cs))) \<in> set pts) \<and>
         (np_var (np_field blk_sad cs) = Val 0 \<and> 0 < sadThreshold self \<longrightarrow>
            (\<forall>v. ((x0, y0, w, h), v) \<notin> set pts)) \<and>
         (maxArea self < w * h \<longrightarrow> (\<forall>v. ((x0, y0, w, h), v) \<notin> set pts))"
proof -
  from analyse_points [OF assms(1)]
  have pts: "pts = concat (map (appended np_var np_mean self a)
                  (removeIntersections self (fc (has_movement self a))))"
    by simp
  have mem: "((x0, y0, w, h), v) \<in> set pts \<longleftrightarrow>
      (x0, y0, w, h) \<in> set (removeIntersections self (fc (has_movement self a))) \<and>
      ((x0, y0, w, h), v) \<in> set (appended np_var np_mean self a (x0, y0, w, h))" for v
    unfolding pts by (rule in_concat_appended)
  have app: "appended np_var np_mean self a (x0, y0, w, h) =
     (if w * h > maxArea self then []
      else if float_less (np_var (np_field blk_sad cs)) (2 * sadThreshold self) then []
      else [((x0, y0, w, h), (np_mean (np_field blk_x cs), np_mean (np_field blk_y cs)))])"
    unfolding assms(3) by (rule appended_multi [OF assms(2)])
  have zero: "float_less (np_var (np_field blk_sad cs)) (2 * sadThreshold self)"
    if "np_var (np_field blk_sad cs) = Val 0" "0 < sadThreshold self"
    using that by simp
  show ?thesis
    using zero by (auto simp: mem app split: if_splits)
qed

text \<open>
  Claim C6, witness: two adjacent blocks with \<open>sad\<close> 80 and 50 (variance 225, not below
  120) are emitted with the mean vector \<open>(7/2, 1/2)\<close>.
\<close>

theorem multi_cell_region_witness:
  "snd (analyse (\<lambda>mask. [(0, 0, 2, 1)]) exact_var exact_mean True (cam 2 8 60 40) 7
          [row8 (blk 3 0 80) (blk 4 1 50) still, row8 still still still])
     = Update_tracks 7 [((0, 0, 2, 1), (Val (7 / 2), Val (1 / 2)))] \<and>
   \<not> ((2 :: int) < 2 \<and> (1 :: int) < 2) \<and>
   [[blk 3 0 80, blk 4 1 50]]
     = window [row8 (blk 3 0 80) (blk 4 1 50) still, row8 still still still] 0 (0 + 1) 0 (0 + 2) \<and>
   exact_var (np_field blk_sad [[blk 3 0 80, blk 4 1 50]]) = Val 225 \<and>
   \<not> float_less (exact_var (np_field blk_sad [[blk 3 0 80, blk 4 1 50]])) (2 * sadThreshold (cam 2 8 60 40)) \<and>
   (Val (7 / 2), Val (1 / 2))
     = (exact_mean (np_field blk_x [[blk 3 0 80, blk 4 1 50]]), exact_mean (np_field blk_y [[blk 3 0 80, blk 4 1 50]]))"
proof -
  have out: "snd (analyse (\<lambda>mask. [(0, 0, 2, 1)]) exact_var exact_mean True (cam 2 8 60 40) 7
          [row8 (blk 3 0 80) (blk 4 1 50) still, row8 still still still])
     = Update_tracks 7 [((0, 0, 2, 1), (Val (7 / 2), Val (1 / 2)))]"
    by (simp add: analyse_eval merger_eval power2_eq_square)
  have multi: "\<not> ((2 :: int) < 2 \<and> (1 :: int) < 2)" by simp
  have cs: "[[blk 3 0 80, blk 4 1 50]]
     = window [row8 (blk 3 0 80) (blk 4 1 50) still, row8 still still still] 0 (0 + 1) 0 (0 + 2)"
    by (simp add: window_def np_slice_def slice_bound_def)
  have var: "exact_var (np_field blk_sad [[blk 3 0 80, blk 4 1 50]]) = Val 225"
    by (simp add: np_field_def power2_eq_square)
  then have nl: "\<not> float_less (exact_var (np_field blk_sad [[blk 3 0 80, blk 4 1 50]]))
                    (2 * sadThreshold (cam 2 8 60 40))"
    by simp
  from multi_cell_region [OF out multi cs, THEN conjunct2, THEN conjunct1]
  have "\<forall>v. ((0 :: int, 0 :: int, 2 :: int, 1 :: int), v)
            \<in> set [((0, 0, 2, 1), (Val (7 / 2), Val (1 / 2)))] \<longrightarrow>
          v = (exact_mean (np_field blk_x [[blk 3 0 80, blk 4 1 50]]), exact_mean (np_field blk_y [[blk 3 0 80, blk 4 1 50]]))"
    .
  then have "(Val (7 / 2), Val (1 / 2))
     = (exact_mean (np_field blk_x [[blk 3 0 80, blk 4 1 50]]), exact_mean (np_field blk_y [[blk 3 0 80, blk 4 1 50]]))"
    by (metis list.set_intros(1))
  with out multi cs var nl show ?thesis by (intro conjI)
qed

text \<open>
  Claim C7 as stated fails. Two frames that differ only in the \<open>sad\<close> of their single
  moving block (90 and 70) hand the same list to the tracker: the emitted region is the
  rectangle and the vector, and carries no confidence. And with \<^verbatim>\<open>maxArea = 0\<close> the single
  block is not emitted at all.
\<close>

theorem single_cell_claim_fails:
  "snd (analyse (\<lambda>mask. [(0, 0, 1, 1)]) exact_var exact_mean True (cam 2 8 60 40) 7
          [row8 (blk 3 0 90) still still, row8 still still still])
     = Update_tracks 7 [((0, 0, 1, 1), (Val 3, Val 0))] \<and>
   snd (analyse (\<lambda>mask. [(0, 0, 1, 1)]) exact_var exact_mean True (cam 2 8 60 40) 7
          [row8 (blk 3 0 70) still still, row8 still still still])
     = Update_tracks 7 [((0, 0, 1, 1), (Val 3, Val 0))] \<and>
   snd (analyse (\<lambda>mask. [(0, 0, 1, 1)]) exact_var exact_mean True (cam 2 8 60 0) 7
          [row8 (blk 3 0 90) still still, row8 still still still])
     = Update_tracks 7 []"
  by (simp add: analyse_eval merger_eval power2_eq_square)

text \<open>
  Claim C7, amended: let \<open>(x0,y0,w,h)\<close> be a rectangle with \<open>w < 2\<close> and \<open>h < 2\<close>. If its area
  is at most \<^verbatim>\<open>maxArea\<close> and \<open>c\<close> is the block \<^verbatim>\<open>a[y0,x0]\<close>, the loop body appends the region
  with the raw vector \<open>(vx c, vy c)\<close> to \<^verbatim>\<open>new_points\<close>, counts a rejection exactly when
  \<open>sad c < sadThreshold\<close>, and appends the region in either case. For a frame that hands
  \<open>pts\<close> to the tracker: every region of \<open>pts\<close> with this rectangle carries the raw vector
  of \<^verbatim>\<open>a[y0,x0]\<close>, and if the rectangle is one of the merged rectangles of the frame and its
  area is at most \<^verbatim>\<open>maxArea\<close>, that region is in \<open>pts\<close>. The block's \<open>sad\<close> is compared with
  the threshold and is not part of the emitted region.
\<close>

theorem single_cell_region:
  assumes "w < 2 \<and> h < 2"
  shows "(w * h \<le> maxArea self \<and> item a y0 x0 = Inr c \<longrightarrow>
            scan_rect np_var np_mean self a (new_points, rejects, num_small, num_large) (x0, y0, w, h) =
              Inr (new_points @ [((x0, y0, w, h), (Val (of_int (blk_x c)), Val (of_int (blk_y c))))],
                   (if blk_sad c < sadThreshold self then rejects + 1 else rejects),
                   num_small + 1, num_large)) \<and>
         (snd (analyse fc np_var np_mean openable self index a) = Update_tracks f pts \<longrightarrow>
            (\<forall>v. ((x0, y0, w, h), v) \<in> set pts \<longrightarrow>
               (\<exists>b. item a y0 x0 = Inr b \<and> v = (Val (of_int (blk_x b)), Val (of_int (blk_y b))))) \<and>
            ((x0, y0, w, h) \<in> set (removeIntersections self (fc (has_movement self a))) \<and>
             w * h \<le> maxArea self \<longrightarrow>
               (\<exists>b. item a y0 x0 = Inr b \<and>
                  ((x0, y0, w, h), (Val (of_int (blk_x b)), Val (of_int (blk_y b)))) \<in> set pts)))"
proof (intro conjI impI)
  assume "w * h \<le> maxArea self \<and> item a y0 x0 = Inr c"
  with assms show "scan_rect np_var np_mean self a (new_points, rejects, num_small, num_large) (x0, y0, w, h) =
              Inr (new_points @ [((x0, y0, w, h), (Val (of_int (blk_x c)), Val (of_int (blk_y c))))],
                   (if blk_sad c < sadThreshold self then rejects + 1 else rejects),
                   num_small + 1, num_large)"
    by (simp add: Let_def)
next
  assume out: "snd (analyse fc np_var np_mean openable self index a) = Update_tracks f pts"
  from analyse_points [OF out]
  have pts: "pts = concat (map (appended np_var np_mean self a) (removeIntersections self (fc (has_movement self a))))"
    by simp
  have mem: "((x0, y0, w, h), v) \<in> set pts \<longleftrightarrow>
      (x0, y0, w, h) \<in> set (removeIntersections self (fc (has_movement self a))) \<and>
      ((x0, y0, w, h), v) \<in> set (appended np_var np_mean self a (x0, y0, w, h))" for v
    unfolding pts by (rule in_concat_appended)
  note app = appended_single [OF assms, of np_var np_mean self a x0 y0]
  show "\<forall>v. ((x0, y0, w, h), v) \<in> set pts \<longrightarrow>
               (\<exists>b. item a y0 x0 = Inr b \<and> v = (Val (of_int (blk_x b)), Val (of_int (blk_y b))))"
  proof (cases "item a y0 x0")
    case (Inl e)
    then show ?thesis by (simp add: mem app)
  next
    case (Inr b)
    then show ?thesis by (auto simp: mem app split: if_splits)
  qed
  assume r: "(x0, y0, w, h) \<in> set (removeIntersections self (fc (has_movement self a))) \<and>
             w * h \<le> maxArea self"
  from analyse_scan [OF out] obtain s2 acc where
    f: "maxArea s2 = maxArea self" and
    sc: "scan_rects np_var np_mean s2 a ([], 0, 0, 0) (removeIntersections self (fc (has_movement self a))) = Inr acc"
    by blast
  from scan_rects_item [OF sc _ assms] r f obtain b where b: "item a y0 x0 = Inr b" by auto
  with r show "\<exists>b. item a y0 x0 = Inr b \<and>
                  ((x0, y0, w, h), (Val (of_int (blk_x b)), Val (of_int (blk_y b)))) \<in> set pts"
    by (auto simp: mem app)
qed

text \<open>
  Claim C7, witness: a single moving block with \<open>sad = 20\<close>, below the threshold 60: one
  rejection is counted and the region is emitted with the raw vector \<open>(3, 0)\<close>.
\<close>

theorem single_cell_region_witness:
  "item [row8 (blk 3 0 20) still still, row8 still still still] 0 0 = Inr (blk 3 0 20) \<and>
   scan_rect exact_var exact_mean (cam 2 8 60 40) [row8 (blk 3 0 20) still still, row8 still still still]
       ([], 0, 0, 0) (0, 0, 1, 1)
     = Inr ([((0, 0, 1, 1), (Val 3, Val 0))], 1, 1, 0) \<and>
   snd (analyse (\<lambda>mask. [(0, 0, 1, 1)]) exact_var exact_mean True (cam 2 8 60 40) 7
          [row8 (blk 3 0 20) still still, row8 still still still])
     = Update_tracks 7 [((0, 0, 1, 1), (Val 3, Val 0))]"
  using single_cell_region [of 1 1 "cam 2 8 60 40" "[row8 (blk 3 0 20) still still, row8 still still still]"
      0 0 "blk 3 0 20" exact_var exact_mean "[]" 0 0 0 "\<lambda>mask. [(0, 0, 1, 1)]" True 7 7
      "[((0, 0, 1, 1), (Val 3, Val 0))]"]
  by (simp add: analyse_eval merger_eval power2_eq_square)

text \<open>
  Claim C8 as stated fails for \<^verbatim>\<open>set_vMin\<close> and \<^verbatim>\<open>set_minArea\<close>: a value below 1 is not
  ignored; 1 is stored in place of the previous value.
\<close>

theorem low_values_are_clamped:
  "vmin (cam 2 8 60 40) = 2 \<and> vmin (set_vMin (cam 2 8 60 40) 0) = 1 \<and>
   minArea ((cam 2 8 60 40)\<lparr>minArea := 5\<rparr>) = 5 \<and>
   minArea (set_minArea ((cam 2 8 60 40)\<lparr>minArea := 5\<rparr>) 0) = 1"
  by (simp add: set_vMin_def set_minArea_def)

text \<open>
  Claim C8, amended: \<^verbatim>\<open>set_vMax\<close> with a value not above \<^verbatim>\<open>vmin\<close>, \<^verbatim>\<open>set_maxArea\<close> with a
  value not above \<^verbatim>\<open>minArea\<close> and \<^verbatim>\<open>set_sadThreshold\<close> with a value outside \<open>0 .. 16383\<close>
  leave the analyser as it was (no field and no configuration entry changes, nothing is
  raised). \<^verbatim>\<open>set_vMin\<close> and \<^verbatim>\<open>set_minArea\<close> with a value below 1 store 1 in the field and
  in the configuration entry, and change nothing else.
\<close>

theorem setters_on_invalid_values:
  "(value \<le> vmin self \<longrightarrow> set_vMax self value = self) \<and>
   (value \<le> minArea self \<longrightarrow> set_maxArea self value = self) \<and>
   (value < 0 \<or> 16384 \<le> value \<longrightarrow> set_sadThreshold self value = self) \<and>
   (value < 1 \<longrightarrow> set_vMin self value = self\<lparr>vmin := 1, config := conf_store self ''vMin'' 1\<rparr>) \<and>
   (value < 1 \<longrightarrow> set_minArea self value = self\<lparr>minArea := 1, config := conf_store self ''minArea'' 1\<rparr>)"
  by (auto simp: set_vMax_def set_maxArea_def set_sadThreshold_def set_vMin_def set_minArea_def)

text \<open>Claim C8, witness: each setter on a rejected value.\<close>

theorem setters_on_invalid_values_witness:
  "(2 :: int) \<le> vmin (cam 2 8 60 40) \<and> set_vMax (cam 2 8 60 40) 2 = cam 2 8 60 40 \<and>
   (1 :: int) \<le> minArea (cam 2 8 60 40) \<and> set_maxArea (cam 2 8 60 40) 1 = cam 2 8 60 40 \<and>
   set_sadThreshold (cam 2 8 60 40) 16384 = cam 2 8 60 40 \<and>
   set_sadThreshold (cam 2 8 60 40) (- 1) = cam 2 8 60 40 \<and>
   set_vMin (cam 2 8 60 40) 0 = (cam 2 8 60 40)\<lparr>vmin := 1\<rparr> \<and>
   set_minArea (cam 2 8 60 40) (- 3) = cam 2 8 60 40"
  using setters_on_invalid_values [of 2 "cam 2 8 60 40"] setters_on_invalid_values [of 1 "cam 2 8 60 40"] setters_on_invalid_values [of 16384 "cam 2 8 60 40"]
    setters_on_invalid_values [of "- 1" "cam 2 8 60 40"] setters_on_invalid_values [of 0 "cam 2 8 60 40"] setters_on_invalid_values [of "- 3" "cam 2 8 60 40"]
  by (simp add: conf_store_def)

text \<open>
  Claim C9 as stated fails: with debugging on and a debug file that cannot be opened,
  \<^verbatim>\<open>analyse\<close> leaves with the exception after updating the frame counters; the moving
  block that the same frame emits when the file opens is not processed.
\<close>

theorem debug_sink_failure_stops_frame:
  "analyse (\<lambda>mask. [(0, 0, 1, 1)]) exact_var exact_mean False ((cam 2 8 60 40)\<lparr>debug := True\<rparr>) 7
          [row8 (blk 3 0 80) still still, row8 still still still]
     = ((cam 2 8 60 40)\<lparr>debug := True, frame := 7, processed_frames := 2\<rparr>, Raised IOError) \<and>
   snd (analyse (\<lambda>mask. [(0, 0, 1, 1)]) exact_var exact_mean True ((cam 2 8 60 40)\<lparr>debug := True\<rparr>) 7
          [row8 (blk 3 0 80) still still, row8 still still still])
     = Update_tracks 7 [((0, 0, 1, 1), (Val 3, Val 0))]"
  by (simp add: analyse_eval merger_eval power2_eq_square)

text \<open>
  Claim C9, amended: when debugging is on, the debug file is not open yet and it cannot be
  opened, \<^verbatim>\<open>analyse\<close> raises the error of \<^verbatim>\<open>open\<close> to its caller: the frame index and the
  count of processed frames are updated, and nothing else happens for that frame (no
  calibration, no mask, no merging, no call to the tracker).
\<close>

theorem debug_sink_failure_raises:
  assumes "debug self" and "fobj self = None"
  shows "analyse fc np_var np_mean False self index a =
           (self\<lparr>frame := index, processed_frames := processed_frames self + 1\<rparr>, Raised IOError)"
  using assms by (simp add: analyse_def debug_out_def)

text \<open>Claim C9, witness: the first frame of an analyser that is not calibrated.\<close>

theorem debug_sink_failure_raises_witness:
  "debug ((cam 2 8 60 40)\<lparr>debug := True, started := False\<rparr>) \<and>
   fobj ((cam 2 8 60 40)\<lparr>debug := True, started := False\<rparr>) = None \<and>
   analyse (\<lambda>mask. []) exact_var exact_mean False ((cam 2 8 60 40)\<lparr>debug := True, started := False\<rparr>) 1
          [row8 still still still, row8 still still still]
     = ((cam 2 8 60 40)\<lparr>debug := True, started := False, frame := 1, processed_frames := 2\<rparr>,
        Raised IOError)"
  using debug_sink_failure_raises [of "(cam 2 8 60 40)\<lparr>debug := True, started := False\<rparr>" "\<lambda>mask. []" exact_var exact_mean 1
      "[row8 still still still, row8 still still still]"]
  by simp

lemma nonfix_union:
  "removeIntersections (cam 30 40 60 40) [(0, 0, 1, 1), (8, 0, 1, 1), (4, 0, 1, 1)]
     = [(0, 0, 5, 1), (4, 0, 5, 1)] \<and>
   joins 40 30 (0, 0, 5, 1) (4, 0, 5, 1) \<and>
   removeIntersections (cam 30 40 60 40) [(0, 0, 5, 1), (4, 0, 5, 1)] = [(0, 0, 9, 1)]"
  by (simp add: merger_eval)

lemma nonfix_pop:
  "removeIntersections (cam 30 40 60 40) [(5, 5, 1, 1), (10, 5, 1, 1), (15, 5, 1, 1), (4, 4, 8, 2)]
     = [(10, 5, 1, 1), (4, 4, 12, 2)] \<and>
   old_in_new (10, 5, 1, 1) (4, 4, 12, 2) \<and>
   removeIntersections (cam 30 40 60 40) [(10, 5, 1, 1), (4, 4, 12, 2)] = []"
  by (simp add: merger_eval)

text \<open>
  Claim C10: there are contour sequences whose result is not a fixed point of
  \<^verbatim>\<open>removeIntersections\<close>. In one, two entries of the result join each other (each was
  replaced by its union with the third contour, and entries are never tested against each
  other); in another, an entry of the result lies strictly inside another entry (it was
  skipped when the entry before it was popped while the index advanced). Running
  \<^verbatim>\<open>removeIntersections\<close> on either result changes it.
\<close>

theorem removeIntersections_not_idempotent:
  "(\<exists>self contours i j.
      i < length (removeIntersections self contours) \<and>
      j < length (removeIntersections self contours) \<and> i \<noteq> j \<and>
      joins (cols self) (rows self) (removeIntersections self contours ! i)
        (removeIntersections self contours ! j) \<and>
      removeIntersections self (removeIntersections self contours) \<noteq> removeIntersections self contours) \<and>
   (\<exists>self contours i j.
      i < length (removeIntersections self contours) \<and>
      j < length (removeIntersections self contours) \<and> i \<noteq> j \<and>
      old_in_new (removeIntersections self contours ! i) (removeIntersections self contours ! j) \<and>
      removeIntersections self (removeIntersections self contours) \<noteq> removeIntersections self contours)"
proof
  show "\<exists>self contours i j.
      i < length (removeIntersections self contours) \<and>
      j < length (removeIntersections self contours) \<and> i \<noteq> j \<and>
      joins (cols self) (rows self) (removeIntersections self contours ! i)
        (removeIntersections self contours ! j) \<and>
      removeIntersections self (removeIntersections self contours) \<noteq> removeIntersections self contours"
    using nonfix_union
    by (intro exI [of _ "cam 30 40 60 40"] exI [of _ "[(0, 0, 1, 1), (8, 0, 1, 1), (4, 0, 1, 1)]"]
          exI [of _ 0] exI [of _ 1]) simp
  show "\<exists>self contours i j.
      i < length (removeIntersections self contours) \<and>
      j < length (removeIntersections self contours) \<and> i \<noteq> j \<and>
      old_in_new (removeIntersections self contours ! i) (removeIntersections self contours ! j) \<and>
      removeIntersections self (removeIntersections self contours) \<noteq> removeIntersections self contours"
    using nonfix_pop
    by (intro exI [of _ "cam 30 40 60 40"]
          exI [of _ "[(5, 5, 1, 1), (10, 5, 1, 1), (15, 5, 1, 1), (4, 4, 8, 2)]"]
          exI [of _ 0] exI [of _ 1]) simp
qed

end
